theory Spec2Isabelle
  imports Main
begin

section \<open>Native event delegation of the editor (EditorObservable.ts)\<close>

subsection \<open>Data\<close>

text \<open>
  DOM nodes and editors are identified by numbers. An editor object is a record of the
  fields and accessors that the mixin reads or writes; the process-wide registry
  \<^verbatim>\<open>customEventRootDelegates\<close>, the editor manager's list of live editors and the
  table of installed native listeners form the \<open>world\<close>. Editors are mutable objects that
  closures refer to by identity, so they live in a store indexed by their identity.
\<close>

type_synonym node = nat
type_synonym editor_id = nat

text \<open>
  A call that throws yields the error alone: the state that it leaves behind is not tracked.
\<close>

datatype js_error = TypeError

record document =
  doc_node :: node
  documentElement :: node

record native_event =
  target :: node
  payload :: nat

text \<open>
  The two closures that \<^verbatim>\<open>bindEventDelegate\<close> creates. Each captures the editor it was
  created for and the event name.
\<close>

datatype delegate = EditorDelegate editor_id string | CustomRootDelegate editor_id string

text \<open>
  \<open>delegates\<close>, \<open>eventRoot\<close> and \<open>pendingNativeEvents\<close> are optional properties of the editor
  object (\<open>None\<close> is \<^verbatim>\<open>undefined\<close>). A JavaScript object used as a dictionary is an
  association list in insertion order. \<open>event_root\<close> is the setting read by
  \<^verbatim>\<open>Settings.getEventRoot\<close>, \<open>readonly\<close> is what \<^verbatim>\<open>isReadOnly(editor)\<close> answers, and
  \<open>has_dom\<close> says whether \<^verbatim>\<open>editor.dom\<close> is set. \<open>getDoc\<close>, \<open>getBody\<close>, \<open>getWin\<close>
  and \<open>getContainer\<close> are what the accessors of the same names return (\<open>None\<close> is
  \<^verbatim>\<open>null\<close>).
\<close>

record editor =
  inline :: bool
  hidden :: bool
  readonly :: bool
  removed :: bool
  initialized :: bool
  delegates :: "(string \<times> delegate) list option"
  eventRoot :: "node option"
  pendingNativeEvents :: "string list option"
  event_root :: "string option"
  getDoc :: "document option"
  getBody :: "node option"
  getWin :: "node option"
  getContainer :: "node option"
  has_dom :: bool

type_synonym listener = "node \<times> string \<times> delegate"

record world =
  store :: "editor_id \<Rightarrow> editor"
  editors :: "editor_id list"
  activeEditor :: "editor_id option"
  customEventRootDelegates :: "(string \<times> delegate) list option"
  removeEditorHandlers :: "editor_id list"
  listeners :: "listener list"
  select :: "string \<Rightarrow> node list"
  parentChain :: "node \<Rightarrow> node list"

text \<open>
  What reaches an editor from a native event: a call of \<^verbatim>\<open>editor.fire(eventName, e)\<close> or a
  call of \<^verbatim>\<open>preventReadOnlyEvents(editor, e)\<close>. The handlers that the editor's own
  dispatcher then runs are outside this file and are not modelled.
\<close>

datatype effect = Fire editor_id string native_event | PreventReadOnlyEvents editor_id native_event

fun effect_editor :: "effect \<Rightarrow> editor_id" where
  "effect_editor (Fire i _ _) = i"
| "effect_editor (PreventReadOnlyEvents i _) = i"

subsection \<open>The DOM collaborators\<close>

text \<open>
  Modelled from the spec: \<^verbatim>\<open>DOM.bind\<close> and \<^verbatim>\<open>dom.unbind\<close> of DOMUtils, which are not part
  of the sources at hand. Binding installs one native listener for the pair of target node
  and event name; unbinding with a name and a function removes that listener, with a name
  only every listener of that name on the node, and with a node only every listener on the
  node. A missing target (\<^verbatim>\<open>null\<close> or \<^verbatim>\<open>undefined\<close>) installs and removes nothing.
\<close>

definition dom_bind :: "node option \<Rightarrow> string \<Rightarrow> delegate \<Rightarrow> listener list \<Rightarrow> listener list" where
  "dom_bind tgt name func ls = (case tgt of None \<Rightarrow> ls | Some n \<Rightarrow> ls @ [(n, name, func)])"

fun unbind_hit :: "node \<Rightarrow> string option \<Rightarrow> delegate option \<Rightarrow> listener \<Rightarrow> bool" where
  "unbind_hit n None _ (m, _, _) = (m = n)"
| "unbind_hit n (Some name) None (m, nm, _) = (m = n \<and> nm = name)"
| "unbind_hit n (Some name) (Some func) (m, nm, f) = (m = n \<and> nm = name \<and> f = func)"

definition dom_unbind :: "node option \<Rightarrow> string option \<Rightarrow> delegate option \<Rightarrow> listener list \<Rightarrow> listener list" where
  "dom_unbind tgt name func ls =
     (case tgt of None \<Rightarrow> ls | Some n \<Rightarrow> filter (\<lambda>l. \<not> unbind_hit n name func l) ls)"

text \<open>
  Modelled from the spec: \<^verbatim>\<open>DOM.isChildOf(node, parent)\<close> of DOMUtils, true when \<open>parent\<close>
  is \<open>node\<close> itself or one of its ancestors. \<open>parentChain w n\<close> lists the ancestors of \<open>n\<close>
  (the chain of \<^verbatim>\<open>parentNode\<close>).
\<close>

definition isChildOf :: "world \<Rightarrow> node \<Rightarrow> node \<Rightarrow> bool" where
  "isChildOf w n parent = (parent \<in> set (n # parentChain w n))"

text \<open>\<^verbatim>\<open>DOM.select(selector)[0]\<close>: the first match, or \<^verbatim>\<open>undefined\<close>.\<close>

fun first :: "'a list \<Rightarrow> 'a option" where
  "first [] = None"
| "first (x # _) = Some x"

subsection \<open>getEventTarget\<close>

text \<open>
  The regular expression \<^verbatim>\<open>/^mouse|touch|click|contextmenu|drop|dragover|dragend/\<close> tested
  against the event name. The anchor belongs to the first alternative only: the name starts
  with \<^verbatim>\<open>mouse\<close>, or one of the other six words occurs anywhere in it.
\<close>

definition starts_with :: "string \<Rightarrow> string \<Rightarrow> bool" where
  "starts_with p s = (take (length p) s = p)"

fun contains :: "string \<Rightarrow> string \<Rightarrow> bool" where
  "contains p [] = (p = [])"
| "contains p (c # cs) = (starts_with p (c # cs) \<or> contains p cs)"

definition mouse_touch_test :: "string \<Rightarrow> bool" where
  "mouse_touch_test eventName =
     (starts_with ''mouse'' eventName \<or> contains ''touch'' eventName \<or>
      contains ''click'' eventName \<or> contains ''contextmenu'' eventName \<or>
      contains ''drop'' eventName \<or> contains ''dragover'' eventName \<or>
      contains ''dragend'' eventName)"

text \<open>
  \<^verbatim>\<open>Settings.getEventRoot(editor)\<close> as a truth value and a selector: an unset setting and
  the empty string are both falsy.
\<close>

definition getEventRoot :: "editor \<Rightarrow> string option" where
  "getEventRoot ed = (case event_root ed of None \<Rightarrow> None | Some s \<Rightarrow> if s = [] then None else Some s)"

text \<open>
  \<open>getEventTarget\<close> returns the node to bind on (\<open>None\<close> when the accessor it ends in returns
  nothing) and the editor, whose \<open>eventRoot\<close> cache it may have filled. Reading
  \<^verbatim>\<open>documentElement\<close> off a missing document is a \<^verbatim>\<open>TypeError\<close>.
\<close>

definition getEventTarget :: "(string \<Rightarrow> node list) \<Rightarrow> editor \<Rightarrow> string \<Rightarrow> js_error + (node option \<times> editor)" where
  "getEventTarget sel ed eventName =
     (if eventName = ''selectionchange'' then Inr (map_option doc_node (getDoc ed), ed)
      else if \<not> inline ed \<and> mouse_touch_test eventName then
        (case getDoc ed of
           None \<Rightarrow> Inl TypeError
         | Some d \<Rightarrow> Inr (Some (documentElement d), ed))
      else
        (case getEventRoot ed of
           Some r \<Rightarrow>
             (case eventRoot ed of
                None \<Rightarrow> Inr (first (sel r), ed\<lparr>eventRoot := first (sel r)\<rparr>)
              | Some n \<Rightarrow> Inr (Some n, ed))
         | None \<Rightarrow> Inr (getBody ed, ed)))"

subsection \<open>fireEvent\<close>

definition isReadOnly :: "editor \<Rightarrow> bool" where
  "isReadOnly ed = readonly ed"

definition isListening :: "editor \<Rightarrow> bool" where
  "isListening ed = (\<not> hidden ed \<and> \<not> isReadOnly ed)"

definition fireEvent :: "world \<Rightarrow> editor_id \<Rightarrow> string \<Rightarrow> native_event \<Rightarrow> effect list" where
  "fireEvent w i eventName e =
     (if isListening (store w i) then [Fire i eventName e]
      else if isReadOnly (store w i) then [PreventReadOnlyEvents i e]
      else [])"

subsection \<open>The delegates\<close>

text \<open>
  The test of the shared delegate's loop body:
  \<^verbatim>\<open>body === target || DOM.isChildOf(target, body)\<close>. An editor without a body never matches.
\<close>

definition bodyMatches :: "world \<Rightarrow> native_event \<Rightarrow> editor_id \<Rightarrow> bool" where
  "bodyMatches w e i =
     (case getBody (store w i) of
        None \<Rightarrow> False
      | Some b \<Rightarrow> b = target e \<or> isChildOf w (target e) b)"

text \<open>
  \<^verbatim>\<open>while (i--)\<close> over the array returned by \<^verbatim>\<open>editorManager.get()\<close>: the test reads \<open>i\<close>, the
  body runs with \<open>i - 1\<close>. The effects are listed in the order in which they happen.
\<close>

fun delegate_loop :: "world \<Rightarrow> editor_id list \<Rightarrow> nat \<Rightarrow> string \<Rightarrow> native_event \<Rightarrow> effect list" where
  "delegate_loop w eds 0 eventName e = []"
| "delegate_loop w eds (Suc i) eventName e =
     (if bodyMatches w e (eds ! i) then fireEvent w (eds ! i) eventName e else [])
     @ delegate_loop w eds i eventName e"

fun run_delegate :: "world \<Rightarrow> delegate \<Rightarrow> native_event \<Rightarrow> effect list" where
  "run_delegate w (EditorDelegate i eventName) e = fireEvent w i eventName e"
| "run_delegate w (CustomRootDelegate i eventName) e =
     delegate_loop w (editors w) (length (editors w)) eventName e"

text \<open>
  Modelled from the spec: the browser firing a native event of name \<open>eventName\<close> at a node
  runs the listeners installed there for that name, in the order of their installation.
\<close>

definition fireNative :: "world \<Rightarrow> node \<Rightarrow> string \<Rightarrow> native_event \<Rightarrow> effect list" where
  "fireNative w n eventName e =
     concat (map (\<lambda>(m, nm, d). if m = n \<and> nm = eventName then run_delegate w d e else []) (listeners w))"

subsection \<open>bindEventDelegate\<close>

text \<open>
  \<^verbatim>\<open>editor.delegates\<close> and \<^verbatim>\<open>customEventRootDelegates\<close> are plain objects created by
  \<^verbatim>\<open>{}\<close>. Reading \<^verbatim>\<open>obj[name]\<close> yields the object's own entry when it has one, and
  otherwise, for the names that every plain object inherits from \<^verbatim>\<open>Object.prototype\<close>, the
  inherited value, which is a function or an object and so truthy, as every delegate is.
  The tests \<^verbatim>\<open>if (obj[name])\<close> of lines 87 and 109 therefore succeed for an own entry
  and for an inherited name alike.
\<close>

definition object_prototype_names :: "string list" where
  "object_prototype_names =
     [''constructor'', ''hasOwnProperty'', ''isPrototypeOf'', ''propertyIsEnumerable'',
      ''toLocaleString'', ''toString'', ''valueOf'', ''__proto__'', ''__defineGetter__'',
      ''__defineSetter__'', ''__lookupGetter__'', ''__lookupSetter__'']"

datatype property = Missing | Own delegate | Inherited

definition get_property :: "(string \<times> delegate) list \<Rightarrow> string \<Rightarrow> property" where
  "get_property obj name =
     (case map_of obj name of
        Some d \<Rightarrow> Own d
      | None \<Rightarrow> if name \<in> set object_prototype_names then Inherited else Missing)"

definition truthy_at :: "(string \<times> delegate) list \<Rightarrow> string \<Rightarrow> bool" where
  "truthy_at obj name = (get_property obj name \<noteq> Missing)"

text \<open>Lines 83 to 85: \<^verbatim>\<open>if (!editor.delegates) editor.delegates = {}\<close>.\<close>

definition ensure_delegates :: "editor \<Rightarrow> editor" where
  "ensure_delegates ed = (case delegates ed of None \<Rightarrow> ed\<lparr>delegates := Some []\<rparr> | Some _ \<Rightarrow> ed)"

definition registered :: "editor \<Rightarrow> (string \<times> delegate) list" where
  "registered ed = (case delegates ed of None \<Rightarrow> [] | Some ds \<Rightarrow> ds)"

text \<open>
  Lines 94 to 107: the registry is created on first use, together with one handler of the
  editor manager's \<^verbatim>\<open>removeEditor\<close> event that captures the editor at hand.
\<close>

definition ensure_registry :: "world \<Rightarrow> editor_id \<Rightarrow> world" where
  "ensure_registry w i =
     (case customEventRootDelegates w of
        None \<Rightarrow> w\<lparr>customEventRootDelegates := Some [], removeEditorHandlers := removeEditorHandlers w @ [i]\<rparr>
      | Some _ \<Rightarrow> w)"

definition registry :: "world \<Rightarrow> (string \<times> delegate) list" where
  "registry w = (case customEventRootDelegates w of None \<Rightarrow> [] | Some ds \<Rightarrow> ds)"

definition put_editor :: "world \<Rightarrow> editor_id \<Rightarrow> editor \<Rightarrow> world" where
  "put_editor w i ed = w\<lparr>store := (store w)(i := ed)\<rparr>"

definition bindEventDelegate :: "world \<Rightarrow> editor_id \<Rightarrow> string \<Rightarrow> js_error + world" where
  "bindEventDelegate w i eventName =
     (let ed = ensure_delegates (store w i) in
      if truthy_at (registered ed) eventName \<or> removed ed then Inr (put_editor w i ed)
      else
        (case getEventTarget (select w) ed eventName of
           Inl err \<Rightarrow> Inl err
         | Inr (eventRootElm, ed') \<Rightarrow>
             (case getEventRoot ed' of
                Some _ \<Rightarrow>
                  (let w' = ensure_registry (put_editor w i ed') i in
                   if truthy_at (registry w') eventName then Inr w'
                   else Inr (w'\<lparr>customEventRootDelegates :=
                                   Some (registry w' @ [(eventName, CustomRootDelegate i eventName)]),
                                 listeners :=
                                   dom_bind eventRootElm eventName (CustomRootDelegate i eventName) (listeners w')\<rparr>))
              | None \<Rightarrow>
                  Inr ((put_editor w i
                          (ed'\<lparr>delegates := Some (registered ed' @ [(eventName, EditorDelegate i eventName)])\<rparr>))
                       \<lparr>listeners := dom_bind eventRootElm eventName (EditorDelegate i eventName) (listeners w)\<rparr>))))"

text \<open>
  The handler registered on \<^verbatim>\<open>removeEditor\<close> (lines 96 to 106), for the editor \<open>i\<close> that it
  captured: once no editor is active it unbinds every listener on the target of each
  registered name and drops the registry.
\<close>

fun unbind_registry :: "(string \<Rightarrow> node list) \<Rightarrow> editor \<Rightarrow> (string \<times> delegate) list \<Rightarrow> listener list \<Rightarrow>
    js_error + (editor \<times> listener list)" where
  "unbind_registry sel ed [] ls = Inr (ed, ls)"
| "unbind_registry sel ed ((name, _) # rest) ls =
     (if \<not> has_dom ed then Inl TypeError
      else
        (case getEventTarget sel ed name of
           Inl err \<Rightarrow> Inl err
         | Inr (tgt, ed') \<Rightarrow> unbind_registry sel ed' rest (dom_unbind tgt None None ls)))"

definition removeEditor_handler :: "world \<Rightarrow> editor_id \<Rightarrow> js_error + world" where
  "removeEditor_handler w i =
     (if activeEditor w = None then
        (case customEventRootDelegates w of
           None \<Rightarrow> Inr w
         | Some ds \<Rightarrow>
             (case unbind_registry (select w) (store w i) ds (listeners w) of
                Inl err \<Rightarrow> Inl err
              | Inr (ed', ls') \<Rightarrow>
                  Inr ((put_editor w i ed')\<lparr>listeners := ls', customEventRootDelegates := None\<rparr>)))
      else Inr w)"

subsection \<open>The mixin: bindPendingEventDelegates, toggleNativeEvent, unbindAllNativeEvents\<close>

fun bind_each :: "world \<Rightarrow> editor_id \<Rightarrow> string list \<Rightarrow> js_error + world" where
  "bind_each w i [] = Inr w"
| "bind_each w i (name # names) =
     (case bindEventDelegate w i name of
        Inl err \<Rightarrow> Inl err
      | Inr w' \<Rightarrow> bind_each w' i names)"

definition bindPendingEventDelegates :: "world \<Rightarrow> editor_id \<Rightarrow> js_error + world" where
  "bindPendingEventDelegates w i =
     (case pendingNativeEvents (store w i) of
        None \<Rightarrow> Inr w
      | Some names \<Rightarrow> bind_each w i names)"

text \<open>
  In the unbinding branch \<^verbatim>\<open>self.delegates[name]\<close> is read off an object that may be
  \<^verbatim>\<open>undefined\<close> (a \<^verbatim>\<open>TypeError\<close>). \<^verbatim>\<open>self.dom.unbind\<close> is looked up before its
  arguments are evaluated, and \<^verbatim>\<open>delete self.delegates[name]\<close> removes an own entry only.
\<close>

text \<open>
  \<^verbatim>\<open>dom.unbind(target, name, obj[name])\<close>: a missing property passes \<^verbatim>\<open>undefined\<close>, which
  unbinds every listener of that name on the target; an own entry unbinds that delegate; an
  inherited value is a function that was never bound, so nothing is removed.
\<close>

definition unbind_property :: "node option \<Rightarrow> string \<Rightarrow> property \<Rightarrow> listener list \<Rightarrow> listener list" where
  "unbind_property tgt name p ls =
     (case p of
        Missing \<Rightarrow> dom_unbind tgt (Some name) None ls
      | Own d \<Rightarrow> dom_unbind tgt (Some name) (Some d) ls
      | Inherited \<Rightarrow> ls)"

definition toggleNativeEvent :: "world \<Rightarrow> editor_id \<Rightarrow> string \<Rightarrow> bool \<Rightarrow> js_error + world" where
  "toggleNativeEvent w i name state =
     (let self = store w i in
      if name = ''focus'' \<or> name = ''blur'' then Inr w
      else if state then
        (if initialized self then bindEventDelegate w i name
         else
           (case pendingNativeEvents self of
              None \<Rightarrow> Inr (put_editor w i (self\<lparr>pendingNativeEvents := Some [name]\<rparr>))
            | Some names \<Rightarrow> Inr (put_editor w i (self\<lparr>pendingNativeEvents := Some (names @ [name])\<rparr>))))
      else if initialized self then
        (if \<not> has_dom self then Inl TypeError
         else
           (case getEventTarget (select w) self name of
              Inl err \<Rightarrow> Inl err
            | Inr (tgt, self') \<Rightarrow>
                (case delegates self' of
                   None \<Rightarrow> Inl TypeError
                 | Some ds \<Rightarrow>
                     Inr ((put_editor w i (self'\<lparr>delegates := Some (filter (\<lambda>kv. fst kv \<noteq> name) ds)\<rparr>))
                          \<lparr>listeners := unbind_property tgt name (get_property ds name) (listeners w)\<rparr>))))
      else Inr w)"

text \<open>
  \<^verbatim>\<open>Obj.each(self.delegates, ...)\<close> of \<open>unbindAllNativeEvents\<close>: one
  \<^verbatim>\<open>self.dom.unbind(getEventTarget(self, name), name, value)\<close> per entry.
\<close>

fun unbind_delegates :: "(string \<Rightarrow> node list) \<Rightarrow> editor \<Rightarrow> (string \<times> delegate) list \<Rightarrow> listener list \<Rightarrow>
    js_error + (editor \<times> listener list)" where
  "unbind_delegates sel ed [] ls = Inr (ed, ls)"
| "unbind_delegates sel ed ((name, val) # rest) ls =
     (if \<not> has_dom ed then Inl TypeError
      else
        (case getEventTarget sel ed name of
           Inl err \<Rightarrow> Inl err
         | Inr (tgt, ed') \<Rightarrow> unbind_delegates sel ed' rest (dom_unbind tgt (Some name) (Some val) ls)))"

text \<open>
  The three blocks of \<open>unbindAllNativeEvents\<close>. \<^verbatim>\<open>body.onload = null\<close> touches no part of
  the modelled state.
\<close>

definition unbind_own :: "(string \<Rightarrow> node list) \<Rightarrow> editor \<Rightarrow> listener list \<Rightarrow> js_error + (editor \<times> listener list)" where
  "unbind_own sel self ls =
     (case delegates self of
        None \<Rightarrow> Inr (self, ls)
      | Some ds \<Rightarrow>
          (case unbind_delegates sel self ds ls of
             Inl err \<Rightarrow> Inl err
           | Inr (self', ls') \<Rightarrow> Inr (self'\<lparr>delegates := None\<rparr>, ls')))"

definition unbind_frame :: "editor \<Rightarrow> listener list \<Rightarrow> listener list" where
  "unbind_frame self ls =
     (if \<not> inline self \<and> getBody self \<noteq> None \<and> has_dom self
      then dom_unbind (map_option doc_node (getDoc self)) None None (dom_unbind (getWin self) None None ls)
      else ls)"

definition unbind_body :: "editor \<Rightarrow> listener list \<Rightarrow> listener list" where
  "unbind_body self ls =
     (if has_dom self
      then dom_unbind (getContainer self) None None (dom_unbind (getBody self) None None ls)
      else ls)"

definition unbindAllNativeEvents :: "world \<Rightarrow> editor_id \<Rightarrow> js_error + world" where
  "unbindAllNativeEvents w i =
     (case unbind_own (select w) (store w i) (listeners w) of
        Inl err \<Rightarrow> Inl err
      | Inr (self', ls') \<Rightarrow>
          Inr ((put_editor w i self')\<lparr>listeners := unbind_body self' (unbind_frame self' ls')\<rparr>))"

section \<open>The image picker of the mobile theme (ImagePicker.js)\<close>

subsection \<open>Data\<close>

text \<open>
  A file or blob is an opaque handle. The raw DOM event carries the \<^verbatim>\<open>files\<close> property of
  its target (\<open>None\<close> when the target has none, or \<^verbatim>\<open>null\<close>) and the \<^verbatim>\<open>dataTransfer\<close>
  object (\<open>None\<close> when the event has none, \<open>Some None\<close> when the object has no
  \<^verbatim>\<open>files\<close>). A file list, even an empty one, is an object and therefore truthy.
\<close>

type_synonym blob = nat

record raw_event =
  target_files :: "blob list option"
  dataTransfer :: "blob list option option"

record simulated_event =
  event_raw :: raw_event
  is_cut :: bool

text \<open>
  What \<^verbatim>\<open>cache.create(id, blob, base64)\<close> returns, with the URI that \<^verbatim>\<open>blobUri()\<close>
  answers, and the markup that \<^verbatim>\<open>editor.dom.createHTML(tag, attrs)\<close> builds.
\<close>

record blob_info =
  info_id :: string
  info_blob :: blob
  info_base64 :: string
  info_uri :: string

datatype html = Html string "(string \<times> string) list"

text \<open>
  The calls that reach the editor's collaborators, in the order in which they happen.
  \<open>Transact cs\<close> is one call of \<^verbatim>\<open>editor.undoManager.transact\<close> whose callback made the
  calls \<open>cs\<close>.
\<close>

datatype call =
    Transact "call list"
  | CacheCreate string blob string
  | CacheAdd blob_info
  | InsertContent html

text \<open>
  The collaborators whose results the code uses: \<^verbatim>\<open>Id.generate(prefix)\<close>, which draws on a
  counter (\<open>unique\<close> below) that every call advances, and the URI that the blob cache
  derives for a new entry.
\<close>

record services =
  generate :: "string \<Rightarrow> nat \<Rightarrow> string"
  make_uri :: "string \<Rightarrow> blob \<Rightarrow> string"

record picker_state =
  unique :: nat
  trace :: "call list"

subsection \<open>addImage and extractBlob\<close>

text \<open>
  Modelled from the spec: \<^verbatim>\<open>undoManager.transact(callback)\<close> runs the callback once, inside
  one undo transaction; \<^verbatim>\<open>cache.create\<close> builds the entry from its three arguments.
\<close>

definition cache_create :: "services \<Rightarrow> string \<Rightarrow> blob \<Rightarrow> string \<Rightarrow> blob_info" where
  "cache_create srv ident b base64 =
     \<lparr>info_id = ident, info_blob = b, info_base64 = base64, info_uri = make_uri srv ident b\<rparr>"

definition transact :: "picker_state \<Rightarrow> (picker_state \<Rightarrow> picker_state) \<Rightarrow> picker_state" where
  "transact s callback =
     (let inner = callback (s\<lparr>trace := []\<rparr>)
      in inner\<lparr>trace := trace s @ [Transact (trace inner)]\<rparr>)"

definition record_call :: "call \<Rightarrow> picker_state \<Rightarrow> picker_state" where
  "record_call c s = s\<lparr>trace := trace s @ [c]\<rparr>"

text \<open>The callback passed to \<^verbatim>\<open>transact\<close> by \<open>addImage\<close> (lines 17 to 27).\<close>

definition addImage_body :: "services \<Rightarrow> blob \<Rightarrow> string \<Rightarrow> picker_state \<Rightarrow> picker_state" where
  "addImage_body srv b base64 s =
     (let ident = generate srv ''mceu'' (unique s);
          s1 = s\<lparr>unique := Suc (unique s)\<rparr>;
          info = cache_create srv ident b base64;
          s2 = record_call (CacheCreate ident b base64) s1;
          s3 = record_call (CacheAdd info) s2;
          img = Html ''img'' [(''src'', info_uri info)]
      in record_call (InsertContent img) s3)"

text \<open>
  \<open>addImage\<close> with the outcome of \<^verbatim>\<open>BlobConversions.blobToBase64(blob)\<close>: \<open>Some base64\<close>
  when the promise is fulfilled, \<open>None\<close> when it is not, in which case the continuation
  never runs.
\<close>

definition addImage :: "services \<Rightarrow> picker_state \<Rightarrow> blob \<Rightarrow> string option \<Rightarrow> picker_state" where
  "addImage srv s b outcome =
     (case outcome of
        None \<Rightarrow> s
      | Some base64 \<Rightarrow> transact s (addImage_body srv b base64))"

text \<open>
  \<^verbatim>\<open>event.raw().target.files || event.raw().dataTransfer.files\<close>, then
  \<^verbatim>\<open>Option.from(files[0])\<close>. The right operand is evaluated only when the left one is falsy;
  reading \<^verbatim>\<open>files\<close> off a missing \<^verbatim>\<open>dataTransfer\<close>, or index 0 off a missing list,
  is a \<^verbatim>\<open>TypeError\<close>.
\<close>

definition extractBlob :: "simulated_event \<Rightarrow> js_error + blob option" where
  "extractBlob simulatedEvent =
     (case target_files (event_raw simulatedEvent) of
        Some files \<Rightarrow> Inr (first files)
      | None \<Rightarrow>
          (case dataTransfer (event_raw simulatedEvent) of
             None \<Rightarrow> Inl TypeError
           | Some None \<Rightarrow> Inl TypeError
           | Some (Some files) \<Rightarrow> Inr (first files)))"

text \<open>The two handlers of the picker built by \<open>sketch\<close>.\<close>

definition picker_click :: "simulated_event \<Rightarrow> simulated_event" where
  "picker_click simulatedEvent = simulatedEvent\<lparr>is_cut := True\<rparr>"

definition picker_change :: "services \<Rightarrow> picker_state \<Rightarrow> simulated_event \<Rightarrow> string option \<Rightarrow> js_error + picker_state" where
  "picker_change srv s simulatedEvent outcome =
     (case extractBlob simulatedEvent of
        Inl err \<Rightarrow> Inl err
      | Inr None \<Rightarrow> Inr s
      | Inr (Some b) \<Rightarrow> Inr (addImage srv s b outcome))"

text \<open>Counting the calls of a trace, at the top level and inside its transactions.\<close>

fun is_transact :: "call \<Rightarrow> bool" where
  "is_transact (Transact _) = True"
| "is_transact _ = False"

fun is_create :: "call \<Rightarrow> bool" where
  "is_create (CacheCreate _ _ _) = True"
| "is_create _ = False"

fun is_add :: "call \<Rightarrow> bool" where
  "is_add (CacheAdd _) = True"
| "is_add _ = False"

fun is_insert :: "call \<Rightarrow> bool" where
  "is_insert (InsertContent _) = True"
| "is_insert _ = False"

fun inside :: "call \<Rightarrow> call list" where
  "inside (Transact cs) = cs"
| "inside _ = []"

definition calls_inside :: "call list \<Rightarrow> call list" where
  "calls_inside cs = concat (map inside cs)"

definition calls_outside :: "call list \<Rightarrow> call list" where
  "calls_outside cs = filter (\<lambda>c. \<not> is_transact c) cs"

section \<open>Auxiliary notions for the statements\<close>

text \<open>The node that \<open>getEventTarget\<close> resolves for an event name, if any.\<close>

definition target_of :: "(string \<Rightarrow> node list) \<Rightarrow> editor \<Rightarrow> string \<Rightarrow> node option" where
  "target_of sel ed name = (case getEventTarget sel ed name of Inl _ \<Rightarrow> None | Inr (t, _) \<Rightarrow> t)"

text \<open>
  The private delegates of editor \<open>i\<close>, and the bookkeeping that \<open>bindEventDelegate\<close>
  maintains for them: every installed private delegate of \<open>i\<close> is the entry of its event
  name in \<open>i\<close>'s delegates table and sits on the node that \<open>getEventTarget\<close> resolves.
\<close>

fun is_own :: "editor_id \<Rightarrow> delegate \<Rightarrow> bool" where
  "is_own i (EditorDelegate j _) = (j = i)"
| "is_own i (CustomRootDelegate _ _) = False"

fun is_shared :: "delegate \<Rightarrow> bool" where
  "is_shared (EditorDelegate _ _) = False"
| "is_shared (CustomRootDelegate _ _) = True"

definition own_listeners_recorded :: "world \<Rightarrow> editor_id \<Rightarrow> bool" where
  "own_listeners_recorded w i =
     (\<forall>(m, nm, d) \<in> set (listeners w).
        is_own i d \<longrightarrow> (nm, d) \<in> set (registered (store w i)) \<and> target_of (select w) (store w i) nm = Some m)"

text \<open>
  The states that the module reaches. At the start nothing is installed and no editor has a
  delegates table. The surrounding editor code may change the flags of an editor and the
  editor manager's list of live editors and active editor; the page itself (documents,
  bodies, settings, the results of selectors) stays as it is. Every other step is a call
  of one of the functions above that returns normally.
\<close>

definition initial :: "world \<Rightarrow> bool" where
  "initial w = (listeners w = [] \<and> (\<forall>i. delegates (store w i) = None))"

inductive reachable :: "world \<Rightarrow> bool" where
  start: "initial w \<Longrightarrow> reachable w"
| flags: "reachable w \<Longrightarrow>
    reachable (put_editor w i ((store w i)\<lparr>hidden := h, readonly := r, removed := rm, initialized := ini\<rparr>))"
| manager: "reachable w \<Longrightarrow> reachable (w\<lparr>editors := es, activeEditor := a\<rparr>)"
| bound: "reachable w \<Longrightarrow> bindEventDelegate w i n = Inr w' \<Longrightarrow> reachable w'"
| pending: "reachable w \<Longrightarrow> bindPendingEventDelegates w i = Inr w' \<Longrightarrow> reachable w'"
| toggled: "reachable w \<Longrightarrow> toggleNativeEvent w i n st = Inr w' \<Longrightarrow> reachable w'"
| unbound: "reachable w \<Longrightarrow> unbindAllNativeEvents w i = Inr w' \<Longrightarrow> reachable w'"
| torn_down: "reachable w \<Longrightarrow> i \<in> set (removeEditorHandlers w) \<Longrightarrow> removeEditor_handler w i = Inr w' \<Longrightarrow>
    reachable w'"

definition consistent :: "world \<Rightarrow> bool" where
  "consistent w = (\<forall>i. own_listeners_recorded w i \<and> distinct (map fst (registered (store w i))))"

text \<open>Sequencing of fallible steps, for statements about runs of several calls.\<close>

definition bind_then_unbindAll :: "world \<Rightarrow> editor_id \<Rightarrow> string \<Rightarrow> js_error + world" where
  "bind_then_unbindAll w i eventName =
     (case bindEventDelegate w i eventName of
        Inl err \<Rightarrow> Inl err
      | Inr w' \<Rightarrow> unbindAllNativeEvents w' i)"

definition fire_after :: "js_error + world \<Rightarrow> node \<Rightarrow> string \<Rightarrow> native_event \<Rightarrow> js_error + effect list" where
  "fire_after r n eventName e =
     (case r of Inl err \<Rightarrow> Inl err | Inr w \<Rightarrow> Inr (fireNative w n eventName e))"

text \<open>The calls that a step of the image picker added to the trace.\<close>

definition new_calls :: "picker_state \<Rightarrow> picker_state \<Rightarrow> call list" where
  "new_calls s s' = drop (length (trace s)) (trace s')"

text \<open>
  The drag-and-drop events of the DOM, which is what the words \<^emph>\<open>drag-family events\<close>
  of the specification name.
\<close>

definition spec_drag_family :: "string list" where
  "spec_drag_family =
     [''drag'', ''dragstart'', ''dragend'', ''dragenter'', ''dragleave'', ''dragover'', ''drop'']"

subsection \<open>Example configurations\<close>

text \<open>
  An editor in iframe mode with its own document (nodes 1 and 2), body 3, window 0 and
  container 4; an inline editor whose events are bound on the element selected by
  \<^verbatim>\<open>#root\<close>; a page with one iframe editor; and a page on which two inline editors with
  bodies 10 and 20 share the event root 5, node 11 lying inside body 10.
\<close>

definition iframe_editor :: editor where
  "iframe_editor =
     \<lparr>inline = False, hidden = False, readonly = False, removed = False, initialized = True,
      delegates = None, eventRoot = None, pendingNativeEvents = None, event_root = None,
      getDoc = Some \<lparr>doc_node = 1, documentElement = 2\<rparr>, getBody = Some 3, getWin = Some 0,
      getContainer = Some 4, has_dom = True\<rparr>"

definition rooted_editor :: "node \<Rightarrow> editor" where
  "rooted_editor b = iframe_editor\<lparr>inline := True, event_root := Some ''#root'', getBody := Some b\<rparr>"

definition plain_world :: world where
  "plain_world =
     \<lparr>store = (\<lambda>_. iframe_editor), editors = [0], activeEditor = Some 0,
      customEventRootDelegates = None, removeEditorHandlers = [], listeners = [],
      select = (\<lambda>_. []), parentChain = (\<lambda>_. [])\<rparr>"

definition plain_bound :: world where
  "plain_bound =
     plain_world
       \<lparr>store := (store plain_world)
          (0 := iframe_editor\<lparr>delegates := Some [(''keydown'', EditorDelegate 0 ''keydown'')]\<rparr>),
        listeners := [(3, ''keydown'', EditorDelegate 0 ''keydown'')]\<rparr>"

definition rooted_world :: world where
  "rooted_world =
     \<lparr>store = (\<lambda>i. if i = 0 then rooted_editor 10 else rooted_editor 20), editors = [0, 1],
      activeEditor = Some 0, customEventRootDelegates = None, removeEditorHandlers = [],
      listeners = [],
      select = (\<lambda>s. if s = ''#root'' then [5] else []),
      parentChain = (\<lambda>n. if n = 11 then [10, 5] else if n = 21 then [20, 5]
                          else if n = 10 \<or> n = 20 then [5] else [])\<rparr>"


definition empty_table_world :: world where
  "empty_table_world = put_editor plain_world 0 (iframe_editor\<lparr>delegates := Some []\<rparr>)"

definition hidden_world :: world where
  "hidden_world = put_editor rooted_world 0 ((rooted_editor 10)\<lparr>hidden := True\<rparr>)"

definition key_event :: native_event where
  "key_event = \<lparr>target = 11, payload = 0\<rparr>"

definition file_event :: "blob list option \<Rightarrow> blob list option option \<Rightarrow> simulated_event" where
  "file_event fs dt = \<lparr>event_raw = \<lparr>target_files = fs, dataTransfer = dt\<rparr>, is_cut = False\<rparr>"

definition demo_services :: services where
  "demo_services =
     \<lparr>generate = (\<lambda>prefix n. prefix @ replicate n (CHR ''x'')),
      make_uri = (\<lambda>ident b. ''blob:'' @ ident)\<rparr>"

definition fresh_picker :: picker_state where
  "fresh_picker = \<lparr>unique = 0, trace = []\<rparr>"

section \<open>Properties of the event delegation\<close>

subsection \<open>getEventTarget and its cache\<close>

lemma getEventTarget_cases:
  "getEventTarget sel ed n = Inr (t, ed') \<Longrightarrow>
     ed' = ed \<or> (eventRoot ed = None \<and> getEventRoot ed \<noteq> None \<and> ed' = ed\<lparr>eventRoot := t\<rparr>)"
  by (auto simp add: getEventTarget_def split: if_splits option.splits)

lemma getEventRoot_cache [simp]: "getEventRoot (ed\<lparr>eventRoot := c\<rparr>) = getEventRoot ed"
  by (simp add: getEventRoot_def)

lemma getEventTarget_again:
  "getEventTarget sel ed n = Inr (t, ed') \<Longrightarrow> getEventTarget sel ed' n = Inr (t, ed')"
  by (auto simp add: getEventTarget_def split: if_splits option.splits)

lemma target_of_after:
  "getEventTarget sel ed n = Inr (t, ed') \<Longrightarrow> target_of sel ed' n' = target_of sel ed n'"
  by (auto simp add: target_of_def getEventTarget_def split: if_splits option.splits)

lemma getEventTarget_keeps:
  "getEventTarget sel ed n = Inr (t, ed') \<Longrightarrow>
     delegates ed' = delegates ed \<and> removed ed' = removed ed \<and> getEventRoot ed' = getEventRoot ed"
  by (drule getEventTarget_cases) auto

lemma target_of_get: "getEventTarget sel ed n = Inr (t, ed') \<Longrightarrow> target_of sel ed n = t"
  by (simp add: target_of_def)

lemma getEventTarget_ensure:
  "getEventTarget sel (ensure_delegates ed) n =
     (case getEventTarget sel ed n of Inl err \<Rightarrow> Inl err | Inr (t, ed') \<Rightarrow> Inr (t, ensure_delegates ed'))"
  by (auto simp add: getEventTarget_def ensure_delegates_def getEventRoot_def split: option.splits)

lemma target_of_ensure [simp]: "target_of sel (ensure_delegates ed) n = target_of sel ed n"
  by (simp add: target_of_def getEventTarget_ensure split: sum.splits)

lemma target_of_delegates [simp]: "target_of sel (ed\<lparr>delegates := x\<rparr>) nm = target_of sel ed nm"
  by (simp add: target_of_def getEventTarget_def getEventRoot_def split: option.splits)

lemma mouse_touch_test_words:
  "mouse_touch_test eventName =
     (starts_with ''mouse'' eventName \<or>
      list_ex (\<lambda>word. contains word eventName)
        [''touch'', ''click'', ''contextmenu'', ''drop'', ''dragover'', ''dragend''])"
  by (simp add: mouse_touch_test_def)

lemma mouse_touch_test_matches:
  "list_all mouse_touch_test
     [''mousedown'', ''mouseup'', ''mousemove'', ''touchstart'', ''touchend'', ''click'', ''dblclick'',
      ''contextmenu'', ''drop'', ''dragover'', ''dragend'']"
  by (simp add: mouse_touch_test_def starts_with_def)

lemma mouse_touch_test_misses:
  "\<not> list_ex mouse_touch_test
     [''dragstart'', ''drag'', ''dragenter'', ''dragleave'', ''pointerdown'', ''keydown'']"
  by (simp add: mouse_touch_test_def starts_with_def)

text \<open>
  Claim C3, in the form that holds of the code. For every editor and event name,
  \<open>getEventTarget\<close> returns the editor's document for \<^verbatim>\<open>selectionchange\<close>; otherwise, when
  the editor is not inline and the name starts with \<^verbatim>\<open>mouse\<close> or contains \<^verbatim>\<open>touch\<close>,
  \<^verbatim>\<open>click\<close>, \<^verbatim>\<open>contextmenu\<close>, \<^verbatim>\<open>drop\<close>, \<^verbatim>\<open>dragover\<close> or \<^verbatim>\<open>dragend\<close>, the document
  element of the editor's document; otherwise, when an event root is configured, the cached
  root element, resolved and cached by this call if the cache was empty; and otherwise the
  editable body. A second call returns the same node and changes nothing. The test accepts
  the mouse, touch, click and context-menu events and \<^verbatim>\<open>drop\<close>, \<^verbatim>\<open>dragover\<close> and
  \<^verbatim>\<open>dragend\<close>; it rejects \<^verbatim>\<open>dragstart\<close>, \<^verbatim>\<open>drag\<close>, \<^verbatim>\<open>dragenter\<close>, \<^verbatim>\<open>dragleave\<close> and
  \<^verbatim>\<open>pointerdown\<close>, which therefore go to the event root or the body.
\<close>

theorem getEventTarget_resolution:
  "(eventName = ''selectionchange'' \<longrightarrow>
      getEventTarget sel ed eventName = Inr (map_option doc_node (getDoc ed), ed))
   \<and> (eventName \<noteq> ''selectionchange'' \<and> \<not> inline ed \<and> mouse_touch_test eventName \<and> getDoc ed = Some d \<longrightarrow>
      getEventTarget sel ed eventName = Inr (Some (documentElement d), ed))
   \<and> (eventName \<noteq> ''selectionchange'' \<and> (inline ed \<or> \<not> mouse_touch_test eventName)
        \<and> getEventRoot ed = Some r \<and> eventRoot ed = Some c \<longrightarrow>
      getEventTarget sel ed eventName = Inr (Some c, ed))
   \<and> (eventName \<noteq> ''selectionchange'' \<and> (inline ed \<or> \<not> mouse_touch_test eventName)
        \<and> getEventRoot ed = Some r \<and> eventRoot ed = None \<longrightarrow>
      getEventTarget sel ed eventName = Inr (first (sel r), ed\<lparr>eventRoot := first (sel r)\<rparr>))
   \<and> (eventName \<noteq> ''selectionchange'' \<and> (inline ed \<or> \<not> mouse_touch_test eventName)
        \<and> getEventRoot ed = None \<longrightarrow>
      getEventTarget sel ed eventName = Inr (getBody ed, ed))
   \<and> (getEventTarget sel ed eventName = Inr (t, ed') \<longrightarrow> getEventTarget sel ed' eventName = Inr (t, ed'))
   \<and> mouse_touch_test eventName =
       (starts_with ''mouse'' eventName \<or>
        list_ex (\<lambda>word. contains word eventName)
          [''touch'', ''click'', ''contextmenu'', ''drop'', ''dragover'', ''dragend''])
   \<and> list_all mouse_touch_test
       [''mousedown'', ''mouseup'', ''mousemove'', ''touchstart'', ''touchend'', ''click'', ''dblclick'',
        ''contextmenu'', ''drop'', ''dragover'', ''dragend'']
   \<and> \<not> list_ex mouse_touch_test
       [''dragstart'', ''drag'', ''dragenter'', ''dragleave'', ''pointerdown'', ''keydown'']"
proof -
  have cases: "(eventName = ''selectionchange'' \<longrightarrow>
      getEventTarget sel ed eventName = Inr (map_option doc_node (getDoc ed), ed))
   \<and> (eventName \<noteq> ''selectionchange'' \<and> \<not> inline ed \<and> mouse_touch_test eventName \<and> getDoc ed = Some d \<longrightarrow>
      getEventTarget sel ed eventName = Inr (Some (documentElement d), ed))
   \<and> (eventName \<noteq> ''selectionchange'' \<and> (inline ed \<or> \<not> mouse_touch_test eventName)
        \<and> getEventRoot ed = Some r \<and> eventRoot ed = Some c \<longrightarrow>
      getEventTarget sel ed eventName = Inr (Some c, ed))
   \<and> (eventName \<noteq> ''selectionchange'' \<and> (inline ed \<or> \<not> mouse_touch_test eventName)
        \<and> getEventRoot ed = Some r \<and> eventRoot ed = None \<longrightarrow>
      getEventTarget sel ed eventName = Inr (first (sel r), ed\<lparr>eventRoot := first (sel r)\<rparr>))
   \<and> (eventName \<noteq> ''selectionchange'' \<and> (inline ed \<or> \<not> mouse_touch_test eventName)
        \<and> getEventRoot ed = None \<longrightarrow>
      getEventTarget sel ed eventName = Inr (getBody ed, ed))"
    by (auto simp add: getEventTarget_def)
  have cached: "getEventTarget sel ed eventName = Inr (t, ed') \<longrightarrow> getEventTarget sel ed' eventName = Inr (t, ed')"
    by (simp add: getEventTarget_again)
  from cases cached mouse_touch_test_words [of eventName] mouse_touch_test_matches mouse_touch_test_misses
  show ?thesis by blast
qed

theorem getEventTarget_resolution_witness:
  "getEventTarget (select plain_world) iframe_editor ''selectionchange'' = Inr (Some 1, iframe_editor)
   \<and> getEventTarget (select plain_world) iframe_editor ''click'' = Inr (Some 2, iframe_editor)
   \<and> getEventTarget (select plain_world) iframe_editor ''keydown'' = Inr (Some 3, iframe_editor)
   \<and> getEventTarget (select rooted_world) (rooted_editor 10) ''click'' =
       Inr (Some 5, (rooted_editor 10)\<lparr>eventRoot := Some 5\<rparr>)
   \<and> getEventTarget (select rooted_world) ((rooted_editor 10)\<lparr>eventRoot := Some 5\<rparr>) ''click'' =
       Inr (Some 5, (rooted_editor 10)\<lparr>eventRoot := Some 5\<rparr>)"
  using getEventTarget_resolution [where eventName = "''selectionchange''" and sel = "select plain_world"
      and ed = iframe_editor]
    getEventTarget_resolution [where eventName = "''click''" and sel = "select plain_world"
      and ed = iframe_editor and d = "\<lparr>doc_node = 1, documentElement = 2\<rparr>"]
    getEventTarget_resolution [where eventName = "''keydown''" and sel = "select plain_world"
      and ed = iframe_editor]
    getEventTarget_resolution [where eventName = "''click''" and sel = "select rooted_world"
      and ed = "rooted_editor 10" and r = "''#root''"]
    getEventTarget_resolution [where eventName = "''click''" and sel = "select rooted_world"
      and ed = "(rooted_editor 10)\<lparr>eventRoot := Some 5\<rparr>" and r = "''#root''" and c = 5]
  by (simp add: iframe_editor_def rooted_editor_def plain_world_def rooted_world_def getEventRoot_def
      mouse_touch_test_def starts_with_def)

text \<open>Without a document there is no document element to return: the call throws.\<close>

lemma getEventTarget_no_document:
  "eventName \<noteq> ''selectionchange'' \<Longrightarrow> \<not> inline ed \<Longrightarrow> mouse_touch_test eventName \<Longrightarrow> getDoc ed = None \<Longrightarrow>
     getEventTarget sel ed eventName = Inl TypeError"
  by (simp add: getEventTarget_def)

text \<open>
  Claim C3 as worded promises the document element for the drag-family events of an editor
  that is not inline. \<^verbatim>\<open>dragstart\<close> is one of them, and for the iframe editor, whose
  document element is node 2, \<open>getEventTarget\<close> returns the body, node 3.
\<close>

theorem drag_family_counterexample:
  "''dragstart'' \<in> set spec_drag_family
   \<and> \<not> inline iframe_editor
   \<and> getDoc iframe_editor = Some \<lparr>doc_node = 1, documentElement = 2\<rparr>
   \<and> getBody iframe_editor = Some 3
   \<and> getEventTarget (select plain_world) iframe_editor ''dragstart'' = Inr (Some 3, iframe_editor)
   \<and> getEventTarget (select plain_world) iframe_editor ''dragstart'' \<noteq> Inr (Some 2, iframe_editor)"
  by (simp add: spec_drag_family_def iframe_editor_def plain_world_def getEventTarget_def
      mouse_touch_test_def starts_with_def getEventRoot_def)

subsection \<open>fireEvent\<close>

text \<open>
  Claim C4. For every editor and every native event routed through \<open>fireEvent\<close>: a hidden or
  read-only editor gets no call of \<^verbatim>\<open>editor.fire\<close>, for any event; a read-only editor
  gets the one call of \<^verbatim>\<open>preventReadOnlyEvents\<close> instead; a hidden editor that is not
  read-only gets nothing; every other editor gets the event fired normally.
\<close>

theorem fireEvent_gating:
  "(hidden (store w i) \<or> isReadOnly (store w i) \<longrightarrow>
      (\<forall>n e'. Fire i n e' \<notin> set (fireEvent w i eventName e)))
   \<and> (isReadOnly (store w i) \<longrightarrow> fireEvent w i eventName e = [PreventReadOnlyEvents i e])
   \<and> (hidden (store w i) \<and> \<not> isReadOnly (store w i) \<longrightarrow> fireEvent w i eventName e = [])
   \<and> (\<not> hidden (store w i) \<and> \<not> isReadOnly (store w i) \<longrightarrow>
        fireEvent w i eventName e = [Fire i eventName e])"
  by (simp add: fireEvent_def isListening_def)

theorem fireEvent_gating_witness:
  "isReadOnly (store (put_editor plain_world 0 (iframe_editor\<lparr>readonly := True\<rparr>)) 0)
   \<and> fireEvent (put_editor plain_world 0 (iframe_editor\<lparr>readonly := True\<rparr>)) 0 ''click'' key_event
       = [PreventReadOnlyEvents 0 key_event]
   \<and> hidden (store (put_editor plain_world 0 (iframe_editor\<lparr>hidden := True\<rparr>)) 0)
   \<and> fireEvent (put_editor plain_world 0 (iframe_editor\<lparr>hidden := True\<rparr>)) 0 ''click'' key_event = []
   \<and> fireEvent plain_world 0 ''click'' key_event = [Fire 0 ''click'' key_event]"
  using fireEvent_gating [of "put_editor plain_world 0 (iframe_editor\<lparr>readonly := True\<rparr>)" 0 "''click''" key_event]
    fireEvent_gating [of "put_editor plain_world 0 (iframe_editor\<lparr>hidden := True\<rparr>)" 0 "''click''" key_event]
    fireEvent_gating [of plain_world 0 "''click''" key_event]
  by (simp add: put_editor_def plain_world_def iframe_editor_def isReadOnly_def)

subsection \<open>The shared delegate of a custom event root\<close>

lemma delegate_loop_filter:
  "k \<le> length eds \<Longrightarrow>
     delegate_loop w eds k n e =
       concat (map (\<lambda>i. fireEvent w i n e) (filter (bodyMatches w e) (rev (take k eds))))"
  by (induction k) (simp_all add: take_Suc_conv_app_nth)

lemma fireEvent_editor: "x \<in> set (fireEvent w j n e) \<Longrightarrow> effect_editor x = j"
  by (auto simp add: fireEvent_def split: if_splits)

lemma delegate_loop_editor:
  "k \<le> length eds \<Longrightarrow> x \<in> set (delegate_loop w eds k n e) \<Longrightarrow>
     effect_editor x \<in> set eds \<and> bodyMatches w e (effect_editor x)"
proof (induction k)
  case 0
  then show ?case by simp
next
  case (Suc k)
  then show ?case
    by (auto split: if_splits dest: fireEvent_editor)
qed

lemma run_delegate_editor:
  "x \<in> set (run_delegate w d e) \<Longrightarrow>
     (case d of EditorDelegate j _ \<Rightarrow> effect_editor x = j
      | CustomRootDelegate _ _ \<Rightarrow> effect_editor x \<in> set (editors w) \<and> bodyMatches w e (effect_editor x))"
  by (cases d) (auto dest: fireEvent_editor delegate_loop_editor [rotated])

lemma fireNative_source:
  "x \<in> set (fireNative w n nm e) \<Longrightarrow> \<exists>d. (n, nm, d) \<in> set (listeners w) \<and> x \<in> set (run_delegate w d e)"
  by (auto simp add: fireNative_def split: if_splits)

text \<open>
  Claim C1, in the form that holds of the code. The shared listener of a custom event root
  scans all live editors, from the last to the first, and hands the event to \<open>fireEvent\<close>
  for exactly those whose editable body is the event target or an ancestor of it: what the
  listener does is what \<open>fireEvent\<close> does for each of these editors in turn. Nothing reaches
  any other editor, each of these editors gets what \<open>fireEvent\<close> yields for it, and the
  editors on which the event is fired are exactly those of them that are listening, that
  is neither hidden nor read-only.
\<close>

theorem custom_root_dispatch:
  "run_delegate w (CustomRootDelegate j eventName) e =
      concat (map (\<lambda>i. fireEvent w i eventName e) (filter (bodyMatches w e) (rev (editors w))))
   \<and> (\<forall>x \<in> set (run_delegate w (CustomRootDelegate j eventName) e).
         effect_editor x \<in> set (editors w) \<and> bodyMatches w e (effect_editor x))
   \<and> (\<forall>i \<in> set (editors w). bodyMatches w e i \<longrightarrow>
         set (fireEvent w i eventName e) \<subseteq> set (run_delegate w (CustomRootDelegate j eventName) e))
   \<and> {i. Fire i eventName e \<in> set (run_delegate w (CustomRootDelegate j eventName) e)} =
       {i \<in> set (editors w). bodyMatches w e i \<and> isListening (store w i)}"
proof -
  have eq: "run_delegate w (CustomRootDelegate j eventName) e =
      concat (map (\<lambda>i. fireEvent w i eventName e) (filter (bodyMatches w e) (rev (editors w))))"
    by (simp add: delegate_loop_filter)
  have only: "\<forall>x \<in> set (run_delegate w (CustomRootDelegate j eventName) e).
         effect_editor x \<in> set (editors w) \<and> bodyMatches w e (effect_editor x)"
    using run_delegate_editor [of _ w "CustomRootDelegate j eventName" e] by simp
  have every: "\<forall>i \<in> set (editors w). bodyMatches w e i \<longrightarrow>
         set (fireEvent w i eventName e) \<subseteq> set (run_delegate w (CustomRootDelegate j eventName) e)"
    unfolding eq by auto
  have fired: "{i. Fire i eventName e \<in> set (run_delegate w (CustomRootDelegate j eventName) e)} =
         {i \<in> set (editors w). bodyMatches w e i \<and> isListening (store w i)}"
    unfolding eq by (auto simp add: fireEvent_def split: if_splits)
  from eq only every fired show ?thesis by blast
qed

theorem custom_root_dispatch_witness:
  "isListening (store rooted_world 0) \<and> isListening (store rooted_world 1)
   \<and> bodyMatches rooted_world key_event 0 \<and> \<not> bodyMatches rooted_world key_event 1
   \<and> run_delegate rooted_world (CustomRootDelegate 0 ''keydown'') key_event = [Fire 0 ''keydown'' key_event]"
  using custom_root_dispatch [of rooted_world 0 "''keydown''" key_event]
  by (simp add: rooted_world_def rooted_editor_def iframe_editor_def key_event_def bodyMatches_def
      isChildOf_def fireEvent_def isListening_def isReadOnly_def)

text \<open>
  Claim C1 as worded has the event dispatched to every live editor whose body holds the
  target. On the page with two inline editors under one root, hide editor 0: its body still
  holds the target of the key event, it is still live, and the shared listener dispatches
  nothing at all.
\<close>

theorem hidden_editor_counterexample:
  "0 \<in> set (editors hidden_world)
   \<and> bodyMatches hidden_world key_event 0
   \<and> hidden (store hidden_world 0)
   \<and> run_delegate hidden_world (CustomRootDelegate 0 ''keydown'') key_event = []"
  by (simp add: hidden_world_def rooted_world_def rooted_editor_def iframe_editor_def key_event_def
      put_editor_def bodyMatches_def isChildOf_def fireEvent_def isListening_def isReadOnly_def)

subsection \<open>bindEventDelegate\<close>


lemma ensure_delegates_idem [simp]: "ensure_delegates (ensure_delegates ed) = ensure_delegates ed"
  by (simp add: ensure_delegates_def split: option.splits)

lemma registered_ensure [simp]: "registered (ensure_delegates ed) = registered ed"
  by (simp add: ensure_delegates_def registered_def split: option.splits)

lemma removed_ensure [simp]: "removed (ensure_delegates ed) = removed ed"
  by (simp add: ensure_delegates_def split: option.splits)




lemma registry_ensure [simp]: "registry (ensure_registry w i) = registry w"
  by (simp add: registry_def ensure_registry_def split: option.splits)

lemma listeners_ensure_registry [simp]: "listeners (ensure_registry w i) = listeners w"
  by (simp add: ensure_registry_def split: option.splits)

lemma registry_put [simp]: "registry (put_editor w i ed) = registry w"
  by (simp add: registry_def put_editor_def)

lemma listeners_put [simp]: "listeners (put_editor w i ed) = listeners w"
  by (simp add: put_editor_def)

lemma truthy_at_own: "map_of obj name = Some d \<Longrightarrow> truthy_at obj name"
  by (simp add: truthy_at_def get_property_def)

lemma not_truthy_at:
  "\<not> truthy_at obj name \<Longrightarrow> map_of obj name = None \<and> name \<notin> set object_prototype_names"
  by (auto simp add: truthy_at_def get_property_def split: option.splits if_splits)








lemma getEventRoot_ensure [simp]: "getEventRoot (ensure_delegates ed) = getEventRoot ed"
  by (simp add: getEventRoot_def ensure_delegates_def split: option.splits)



text \<open>
  For a name that plain objects inherit, the test of line 87 succeeds on the fresh table
  and the call returns before binding: \<^verbatim>\<open>constructor\<close> gets no listener.
\<close>

lemma bind_inherited_name:
  "bindEventDelegate plain_world 0 ''constructor'' =
     Inr (put_editor plain_world 0 (iframe_editor\<lparr>delegates := Some []\<rparr>))
   \<and> listeners (put_editor plain_world 0 (iframe_editor\<lparr>delegates := Some []\<rparr>)) = []"
  by (simp add: bindEventDelegate_def plain_world_def iframe_editor_def put_editor_def
      ensure_delegates_def registered_def truthy_at_def get_property_def object_prototype_names_def
      Let_def)




subsection \<open>toggleNativeEvent\<close>

text \<open>
  Claim C8. For every state of the world (editor initialized or not, any delegates table,
  any pending list) and both toggle states, \<open>toggleNativeEvent\<close> with the name \<^verbatim>\<open>focus\<close> or
  \<^verbatim>\<open>blur\<close> returns the state unchanged: no listener installed, no delegate and no
  pending name recorded.
\<close>

theorem toggle_focus_blur:
  "toggleNativeEvent w i ''focus'' state = Inr w \<and> toggleNativeEvent w i ''blur'' state = Inr w"
  by (simp add: toggleNativeEvent_def)

theorem toggle_focus_blur_witness:
  "toggleNativeEvent plain_world 0 ''focus'' True = Inr plain_world
   \<and> toggleNativeEvent plain_bound 0 ''blur'' False = Inr plain_bound"
  using toggle_focus_blur [of plain_world 0 True] toggle_focus_blur [of plain_bound 0 False]
  by simp

subsection \<open>unbindAllNativeEvents\<close>

lemma dom_unbind_subset: "set (dom_unbind t nm f ls) \<subseteq> set ls"
  by (auto simp add: dom_unbind_def split: option.splits)

lemma dom_unbind_exact:
  "(m, nm, d) \<in> set (dom_unbind t (Some name) (Some v) ls) \<Longrightarrow>
     (m, nm, d) \<in> set ls \<and> \<not> (t = Some m \<and> nm = name \<and> d = v)"
  by (auto simp add: dom_unbind_def split: option.splits)

lemma unbind_delegates_removes:
  "unbind_delegates sel ed ds ls = Inr (ed', ls') \<Longrightarrow> (m, nm, d) \<in> set ls' \<Longrightarrow>
     (m, nm, d) \<in> set ls \<and> \<not> ((nm, d) \<in> set ds \<and> target_of sel ed nm = Some m)"
proof (induction ds arbitrary: ed ls)
  case Nil
  then show ?case by simp
next
  case (Cons kv rest)
  obtain name v where kv: "kv = (name, v)" by (cases kv)
  from Cons.prems(1) obtain tgt ed1 where
    get: "getEventTarget sel ed name = Inr (tgt, ed1)" and
    rec: "unbind_delegates sel ed1 rest (dom_unbind tgt (Some name) (Some v) ls) = Inr (ed', ls')"
    by (auto simp add: kv split: if_splits sum.splits)
  from Cons.IH [OF rec Cons.prems(2)] have
    mem: "(m, nm, d) \<in> set (dom_unbind tgt (Some name) (Some v) ls)" and
    notrest: "\<not> ((nm, d) \<in> set rest \<and> target_of sel ed1 nm = Some m)"
    by simp_all
  have stable: "target_of sel ed1 nm = target_of sel ed nm"
    by (rule target_of_after [OF get])
  have tgt: "target_of sel ed name = tgt" by (rule target_of_get [OF get])
  from dom_unbind_exact [OF mem] have
    inls: "(m, nm, d) \<in> set ls" and nothit: "\<not> (tgt = Some m \<and> nm = name \<and> d = v)"
    by simp_all
  show ?case using inls nothit notrest stable tgt by (auto simp add: kv)
qed

lemma unbind_frame_subset: "set (unbind_frame ed ls) \<subseteq> set ls"
  by (auto simp add: unbind_frame_def dom_unbind_def split: option.splits)

lemma unbind_body_subset: "set (unbind_body ed ls) \<subseteq> set ls"
  by (auto simp add: unbind_body_def dom_unbind_def split: option.splits)

lemma unbindAll_listeners:
  assumes rec: "own_listeners_recorded w i" and ok: "unbindAllNativeEvents w i = Inr w'"
    and mem: "(m, nm, d) \<in> set (listeners w')"
  shows "(m, nm, d) \<in> set (listeners w) \<and> \<not> is_own i d"
proof -
  from ok obtain self' ls' where
    own: "unbind_own (select w) (store w i) (listeners w) = Inr (self', ls')" and
    w': "w' = (put_editor w i self')\<lparr>listeners := unbind_body self' (unbind_frame self' ls')\<rparr>"
    by (auto simp add: unbindAllNativeEvents_def split: sum.splits)
  from mem have in': "(m, nm, d) \<in> set ls'"
    using unbind_body_subset unbind_frame_subset by (fastforce simp add: w')
  show ?thesis
  proof (cases "delegates (store w i)")
    case None
    with own have "ls' = listeners w" by (simp add: unbind_own_def)
    moreover have "registered (store w i) = []" using None by (simp add: registered_def)
    ultimately show ?thesis using rec in' by (fastforce simp add: own_listeners_recorded_def)
  next
    case (Some ds)
    with own obtain ed1 where
      ud: "unbind_delegates (select w) (store w i) ds (listeners w) = Inr (ed1, ls')"
      by (auto simp add: unbind_own_def split: sum.splits)
    have regd: "registered (store w i) = ds" using Some by (simp add: registered_def)
    from unbind_delegates_removes [OF ud in'] rec regd show ?thesis
      by (fastforce simp add: own_listeners_recorded_def)
  qed
qed

lemma delegates_None_upd: "delegates ed = None \<Longrightarrow> ed\<lparr>delegates := None\<rparr> = ed"
  by (cases ed) simp

lemma unbind_body_delegates [simp]: "unbind_body (ed\<lparr>delegates := x\<rparr>) ls = unbind_body ed ls"
  by (simp add: unbind_body_def)

lemma unbind_frame_delegates [simp]: "unbind_frame (ed\<lparr>delegates := x\<rparr>) ls = unbind_frame ed ls"
  by (simp add: unbind_frame_def)

lemma unbind_own_empty:
  "registered ed = [] \<Longrightarrow> unbind_own sel ed ls = Inr (ed\<lparr>delegates := None\<rparr>, ls)"
  by (cases "delegates ed") (simp_all add: unbind_own_def registered_def delegates_None_upd)

text \<open>
  Claim C9, in the form that holds of the code. On an editor without registered delegates
  (no delegates table, or an empty one) \<open>unbindAllNativeEvents\<close> does not raise. It returns
  a state in which the editor has no delegates table, so still no registered delegate: an
  editor that had no table is as it was, an empty table is deleted (line 206), and every
  other field of the editor is as before. The shared registry and the other editors are
  untouched, and the only listeners gone are those on the editor's own window, document,
  body and container.
\<close>

theorem unbindAll_without_delegates:
  "registered (store w i) = [] \<Longrightarrow>
     (\<exists>w'. unbindAllNativeEvents w i = Inr w'
        \<and> registered (store w' i) = []
        \<and> delegates (store w' i) = None
        \<and> store w' i = (store w i)\<lparr>delegates := None\<rparr>
        \<and> (delegates (store w i) = None \<longrightarrow> store w' i = store w i)
        \<and> (\<forall>k. k \<noteq> i \<longrightarrow> store w' k = store w k)
        \<and> customEventRootDelegates w' = customEventRootDelegates w
        \<and> listeners w' = unbind_body (store w i) (unbind_frame (store w i) (listeners w))
        \<and> set (listeners w') \<subseteq> set (listeners w))"
proof -
  assume none: "registered (store w i) = []"
  define w' where "w' = (put_editor w i ((store w i)\<lparr>delegates := None\<rparr>))
            \<lparr>listeners := unbind_body (store w i) (unbind_frame (store w i) (listeners w))\<rparr>"
  have run: "unbindAllNativeEvents w i = Inr w'"
    using none by (simp add: unbindAllNativeEvents_def unbind_own_empty w'_def)
  have sub: "set (listeners w') \<subseteq> set (listeners w)"
    using unbind_body_subset unbind_frame_subset by (fastforce simp add: w'_def)
  have rest: "registered (store w' i) = []" "delegates (store w' i) = None"
    "store w' i = (store w i)\<lparr>delegates := None\<rparr>"
    "\<forall>k. k \<noteq> i \<longrightarrow> store w' k = store w k"
    "customEventRootDelegates w' = customEventRootDelegates w"
    "listeners w' = unbind_body (store w i) (unbind_frame (store w i) (listeners w))"
    by (simp_all add: w'_def put_editor_def registered_def)
  have same: "delegates (store w i) = None \<longrightarrow> store w' i = store w i"
    by (simp add: w'_def put_editor_def delegates_None_upd)
  show ?thesis
    by (rule exI [of _ w']) (use run sub rest same in blast)
qed

theorem unbindAll_without_delegates_witness:
  "registered (store plain_world 0) = []
   \<and> unbindAllNativeEvents plain_world 0 =
       Inr ((put_editor plain_world 0 (iframe_editor\<lparr>delegates := None\<rparr>))\<lparr>listeners := []\<rparr>)
   \<and> registered (iframe_editor\<lparr>delegates := None\<rparr>) = []
   \<and> registered (store empty_table_world 0) = []
   \<and> unbindAllNativeEvents empty_table_world 0 =
       Inr ((put_editor empty_table_world 0 (iframe_editor\<lparr>delegates := None\<rparr>))\<lparr>listeners := []\<rparr>)"
proof -
  have none: "registered (store plain_world 0) = []"
    by (simp add: plain_world_def iframe_editor_def registered_def)
  have empty: "registered (store empty_table_world 0) = []"
    by (simp add: empty_table_world_def put_editor_def registered_def)
  have run: "unbindAllNativeEvents plain_world 0 =
       Inr ((put_editor plain_world 0 (iframe_editor\<lparr>delegates := None\<rparr>))\<lparr>listeners := []\<rparr>)"
    by (simp add: unbindAllNativeEvents_def unbind_own_def unbind_body_def unbind_frame_def
        dom_unbind_def plain_world_def iframe_editor_def put_editor_def)
  have run_empty: "unbindAllNativeEvents empty_table_world 0 =
       Inr ((put_editor empty_table_world 0 (iframe_editor\<lparr>delegates := None\<rparr>))\<lparr>listeners := []\<rparr>)"
    by (simp add: unbindAllNativeEvents_def unbind_own_def unbind_body_def unbind_frame_def
        dom_unbind_def empty_table_world_def plain_world_def iframe_editor_def put_editor_def)
  from unbindAll_without_delegates [OF none] unbindAll_without_delegates [OF empty] none empty run run_empty
  show ?thesis by (simp add: registered_def)
qed

text \<open>
  Claim C9 as worded has the call change nothing of the editor's delegate state. On the page
  with one iframe editor, give the editor an empty delegates table, as every editor under a
  custom event root has after binding: the call deletes the table, and the module can tell
  the two states apart, since \<open>toggleNativeEvent\<close> with state false returns before the call
  and throws after it (line 186).
\<close>

theorem empty_table_counterexample:
  "registered (store empty_table_world 0) = []
   \<and> delegates (store empty_table_world 0) = Some []
   \<and> unbindAllNativeEvents empty_table_world 0 =
       Inr ((put_editor empty_table_world 0 (iframe_editor\<lparr>delegates := None\<rparr>))\<lparr>listeners := []\<rparr>)
   \<and> delegates (store ((put_editor empty_table_world 0 (iframe_editor\<lparr>delegates := None\<rparr>))\<lparr>listeners := []\<rparr>) 0)
       = None
   \<and> toggleNativeEvent empty_table_world 0 ''keydown'' False = Inr empty_table_world
   \<and> toggleNativeEvent ((put_editor empty_table_world 0 (iframe_editor\<lparr>delegates := None\<rparr>))\<lparr>listeners := []\<rparr>)
       0 ''keydown'' False = Inl TypeError"
  by (simp add: empty_table_world_def plain_world_def iframe_editor_def put_editor_def
      unbindAllNativeEvents_def unbind_own_def unbind_body_def unbind_frame_def dom_unbind_def
      registered_def toggleNativeEvent_def Let_def getEventTarget_def mouse_touch_test_def
      starts_with_def getEventRoot_def unbind_property_def get_property_def object_prototype_names_def)

subsection \<open>The bookkeeping of private delegates\<close>

text \<open>
  In every reachable state the installed private delegates of each editor are recorded in
  its delegates table, under distinct names: \<open>consistent\<close> holds at the start and every
  step maintains it.
\<close>

lemma bind_outcomes:
  assumes ok: "bindEventDelegate w j n = Inr w'"
  obtains (skip) "w' = put_editor w j (ensure_delegates (store w j))"
  | (shared) t ed' where
      "getEventTarget (select w) (ensure_delegates (store w j)) n = Inr (t, ed')"
      "store w' j = ed'" "\<forall>k. k \<noteq> j \<longrightarrow> store w' k = store w k" "select w' = select w"
      "listeners w' = listeners w \<or> listeners w' = dom_bind t n (CustomRootDelegate j n) (listeners w)"
  | (single) t ed' where
      "getEventTarget (select w) (ensure_delegates (store w j)) n = Inr (t, ed')"
      "w' = (put_editor w j (ed'\<lparr>delegates := Some (registered ed' @ [(n, EditorDelegate j n)])\<rparr>))
              \<lparr>listeners := dom_bind t n (EditorDelegate j n) (listeners w)\<rparr>"
proof -
  define ed where "ed = ensure_delegates (store w j)"
  show thesis
  proof (cases "truthy_at (registered ed) n \<or> removed ed")
    case True
    with ok have "w' = put_editor w j ed"
      by (auto simp add: bindEventDelegate_def Let_def ed_def)
    then show thesis using skip by (simp add: ed_def)
  next
    case False
    with ok obtain t ed' where get: "getEventTarget (select w) ed n = Inr (t, ed')"
      by (auto simp add: bindEventDelegate_def Let_def ed_def split: sum.splits)
    show thesis
    proof (cases "getEventRoot ed'")
      case None
      with ok False get have "w' = (put_editor w j
            (ed'\<lparr>delegates := Some (registered ed' @ [(n, EditorDelegate j n)])\<rparr>))
             \<lparr>listeners := dom_bind t n (EditorDelegate j n) (listeners w)\<rparr>"
        by (auto simp add: bindEventDelegate_def Let_def ed_def)
      then show thesis using single get by (simp add: ed_def)
    next
      case (Some r)
      define w1 where "w1 = ensure_registry (put_editor w j ed') j"
      have w1: "store w1 j = ed'" "\<forall>k. k \<noteq> j \<longrightarrow> store w1 k = store w k" "select w1 = select w"
        "listeners w1 = listeners w"
        by (auto simp add: w1_def ensure_registry_def put_editor_def split: option.splits)
      from ok False get Some have w': "w' = (if truthy_at (registry w1) n then w1
            else w1\<lparr>customEventRootDelegates := Some (registry w1 @ [(n, CustomRootDelegate j n)]),
                    listeners := dom_bind t n (CustomRootDelegate j n) (listeners w1)\<rparr>)"
        by (auto simp add: bindEventDelegate_def Let_def ed_def w1_def)
      have "store w' j = ed'" "\<forall>k. k \<noteq> j \<longrightarrow> store w' k = store w k" "select w' = select w"
        "listeners w' = listeners w \<or> listeners w' = dom_bind t n (CustomRootDelegate j n) (listeners w)"
        using w1 by (auto simp add: w')
      then show thesis using shared get by (simp add: ed_def)
    qed
  qed
qed

lemma registered_upd [simp]: "registered (ed\<lparr>delegates := Some ds\<rparr>) = ds"
  by (simp add: registered_def)

lemma registered_after_get:
  "getEventTarget sel ed n = Inr (t, ed') \<Longrightarrow> registered ed' = registered ed"
  by (drule getEventTarget_keeps) (simp add: registered_def)

lemma recorded_mono:
  assumes rec: "own_listeners_recorded w i"
    and sel: "select w' = select w"
    and regs: "set (registered (store w i)) \<subseteq> set (registered (store w' i))"
    and tgts: "\<And>nm. target_of (select w) (store w' i) nm = target_of (select w) (store w i) nm"
    and news: "\<And>m nm d. (m, nm, d) \<in> set (listeners w') \<Longrightarrow> (m, nm, d) \<notin> set (listeners w) \<Longrightarrow> is_own i d \<Longrightarrow>
        (nm, d) \<in> set (registered (store w' i)) \<and> target_of (select w) (store w' i) nm = Some m"
  shows "own_listeners_recorded w' i"
  unfolding own_listeners_recorded_def
proof (intro ballI, clarify)
  fix m nm d
  assume mem: "(m, nm, d) \<in> set (listeners w')" and own: "is_own i d"
  show "(nm, d) \<in> set (registered (store w' i)) \<and> target_of (select w') (store w' i) nm = Some m"
  proof (cases "(m, nm, d) \<in> set (listeners w)")
    case True
    with rec own have "(nm, d) \<in> set (registered (store w i)) \<and> target_of (select w) (store w i) nm = Some m"
      by (auto simp add: own_listeners_recorded_def)
    then show ?thesis using regs tgts sel by auto
  next
    case False
    from news [OF mem False own] show ?thesis by (simp add: sel)
  qed
qed

lemma own_listeners_recorded_bind:
  assumes rec: "own_listeners_recorded w i" and ok: "bindEventDelegate w j n = Inr w'"
  shows "own_listeners_recorded w' i"
  using ok
proof (cases rule: bind_outcomes)
  case skip
  show ?thesis
    by (rule recorded_mono [OF rec]) (auto simp add: skip put_editor_def)
next
  case (shared t ed')
  note stable = target_of_after [OF shared(1)] and regs = registered_after_get [OF shared(1)]
  show ?thesis
  proof (rule recorded_mono [OF rec])
    show "select w' = select w" by (rule shared(4))
    show "set (registered (store w i)) \<subseteq> set (registered (store w' i))"
      using shared(2,3) regs by (cases "i = j") auto
    show "target_of (select w) (store w' i) nm = target_of (select w) (store w i) nm" for nm
      using shared(2,3) stable by (cases "i = j") auto
    show "(nm, d) \<in> set (registered (store w' i)) \<and> target_of (select w) (store w' i) nm = Some m"
      if "(m, nm, d) \<in> set (listeners w')" "(m, nm, d) \<notin> set (listeners w)" "is_own i d" for m nm d
      using that shared(5) by (auto simp add: dom_bind_def split: option.splits)
  qed
next
  case (single t ed')
  note stable = target_of_after [OF single(1)] and regs = registered_after_get [OF single(1)]
  have tgt: "target_of (select w) (store w j) n = t"
    using target_of_get [OF single(1)] by simp
  show ?thesis
  proof (rule recorded_mono [OF rec])
    show "select w' = select w" by (simp add: single(2) put_editor_def)
    show "set (registered (store w i)) \<subseteq> set (registered (store w' i))"
      using regs by (auto simp add: single(2) put_editor_def)
    show "target_of (select w) (store w' i) nm = target_of (select w) (store w i) nm" for nm
      using stable by (auto simp add: single(2) put_editor_def)
    show "(nm, d) \<in> set (registered (store w' i)) \<and> target_of (select w) (store w' i) nm = Some m"
      if "(m, nm, d) \<in> set (listeners w')" "(m, nm, d) \<notin> set (listeners w)" "is_own i d" for m nm d
      using that stable tgt
      by (auto simp add: single(2) put_editor_def dom_bind_def split: option.splits if_splits)
  qed
qed

lemma own_listeners_recorded_initial: "listeners w = [] \<Longrightarrow> own_listeners_recorded w i"
  by (simp add: own_listeners_recorded_def)

lemma truthy_at_entry: "(k, v) \<in> set kvs \<Longrightarrow> truthy_at kvs k"
  using weak_map_of_SomeI [of k v kvs] by (auto intro: truthy_at_own)

lemma bind_distinct:
  assumes d: "distinct (map fst (registered (store w i)))" and ok: "bindEventDelegate w j n = Inr w'"
  shows "distinct (map fst (registered (store w' i)))"
proof (cases "truthy_at (registered (ensure_delegates (store w j))) n \<or> removed (ensure_delegates (store w j))")
  case True
  with ok have "w' = put_editor w j (ensure_delegates (store w j))"
    by (auto simp add: bindEventDelegate_def Let_def)
  then show ?thesis using d by (cases "i = j") (simp_all add: put_editor_def)
next
  case False
  from ok show ?thesis
  proof (cases rule: bind_outcomes)
    case skip
    then show ?thesis using d by (cases "i = j") (simp_all add: put_editor_def)
  next
    case (shared t ed')
    from registered_after_get [OF shared(1)] shared(2,3) d show ?thesis
      by (cases "i = j") simp_all
  next
    case (single t ed')
    from False have "n \<notin> set (map fst (registered (store w j)))"
      by (auto dest: truthy_at_entry)
    with registered_after_get [OF single(1)] d show ?thesis
      by (cases "i = j") (auto simp add: single(2) put_editor_def)
  qed
qed

lemma consistent_bind: "consistent w \<Longrightarrow> bindEventDelegate w j n = Inr w' \<Longrightarrow> consistent w'"
  unfolding consistent_def using own_listeners_recorded_bind bind_distinct by blast

lemma consistent_bind_each: "consistent w \<Longrightarrow> bind_each w j names = Inr w' \<Longrightarrow> consistent w'"
proof (induction names arbitrary: w)
  case Nil
  then show ?case by simp
next
  case (Cons name names)
  then show ?case by (auto split: sum.splits dest: consistent_bind)
qed

lemma consistent_pending: "consistent w \<Longrightarrow> bindPendingEventDelegates w j = Inr w' \<Longrightarrow> consistent w'"
  by (auto simp add: bindPendingEventDelegates_def split: option.splits dest: consistent_bind_each)

lemma target_of_flags [simp]:
  "target_of sel (ed\<lparr>hidden := h, readonly := r, removed := rm, initialized := ini\<rparr>) nm = target_of sel ed nm"
  by (simp add: target_of_def getEventTarget_def getEventRoot_def split: option.splits)

lemma target_of_pending [simp]:
  "target_of sel (ed\<lparr>pendingNativeEvents := x\<rparr>) nm = target_of sel ed nm"
  by (simp add: target_of_def getEventTarget_def getEventRoot_def split: option.splits)

lemma registered_flags [simp]:
  "registered (ed\<lparr>hidden := h, readonly := r, removed := rm, initialized := ini\<rparr>) = registered ed"
  by (simp add: registered_def)

lemma registered_pending [simp]: "registered (ed\<lparr>pendingNativeEvents := x\<rparr>) = registered ed"
  by (simp add: registered_def)

lemma consistent_same:
  assumes c: "consistent w"
    and sel: "select w' = select w"
    and sub: "set (listeners w') \<subseteq> set (listeners w)"
    and regs: "\<And>i. registered (store w' i) = registered (store w i)"
    and tgts: "\<And>i nm. target_of (select w) (store w' i) nm = target_of (select w) (store w i) nm"
  shows "consistent w'"
  unfolding consistent_def
proof (intro allI conjI)
  fix i
  from c have rec: "own_listeners_recorded w i" by (simp add: consistent_def)
  show "own_listeners_recorded w' i"
    by (rule recorded_mono [OF rec sel]) (use sub regs tgts in auto)
  from c show "distinct (map fst (registered (store w' i)))" by (simp add: consistent_def regs)
qed

lemma consistent_start: "initial w \<Longrightarrow> consistent w"
  by (simp add: initial_def consistent_def own_listeners_recorded_def registered_def)

lemma consistent_flags:
  "consistent w \<Longrightarrow>
     consistent (put_editor w i ((store w i)\<lparr>hidden := h, readonly := r, removed := rm, initialized := ini\<rparr>))"
  by (erule consistent_same) (simp_all add: put_editor_def)

lemma consistent_manager: "consistent w \<Longrightarrow> consistent (w\<lparr>editors := es, activeEditor := a\<rparr>)"
  by (erule consistent_same) simp_all

lemma unbind_registry_keeps:
  "unbind_registry sel ed ds ls = Inr (ed', ls') \<Longrightarrow>
     registered ed' = registered ed \<and> (\<forall>nm. target_of sel ed' nm = target_of sel ed nm) \<and> set ls' \<subseteq> set ls"
proof (induction ds arbitrary: ed ls)
  case Nil
  then show ?case by simp
next
  case (Cons kv rest)
  obtain name v where kv: "kv = (name, v)" by (cases kv)
  from Cons.prems obtain tgt ed1 where
    get: "getEventTarget sel ed name = Inr (tgt, ed1)" and
    rec: "unbind_registry sel ed1 rest (dom_unbind tgt None None ls) = Inr (ed', ls')"
    by (auto simp add: kv split: if_splits sum.splits)
  from Cons.IH [OF rec] registered_after_get [OF get] target_of_after [OF get] dom_unbind_subset
  show ?case by fastforce
qed

lemma consistent_torn_down:
  assumes c: "consistent w" and ok: "removeEditor_handler w j = Inr w'"
  shows "consistent w'"
proof (cases "activeEditor w = None \<and> customEventRootDelegates w \<noteq> None")
  case False
  with ok have "w' = w" by (auto simp add: removeEditor_handler_def split: option.splits if_splits)
  with c show ?thesis by simp
next
  case True
  then obtain ds where act: "activeEditor w = None" and reg: "customEventRootDelegates w = Some ds"
    by auto
  from ok have "(case unbind_registry (select w) (store w j) ds (listeners w) of
                Inl err \<Rightarrow> Inl err
              | Inr (ed', ls') \<Rightarrow>
                  Inr ((put_editor w j ed')\<lparr>listeners := ls', customEventRootDelegates := None\<rparr>)) = Inr w'"
    by (simp add: removeEditor_handler_def act reg)
  then obtain ed' ls' where
    ur: "unbind_registry (select w) (store w j) ds (listeners w) = Inr (ed', ls')" and
    w': "w' = (put_editor w j ed')\<lparr>listeners := ls', customEventRootDelegates := None\<rparr>"
    by (cases "unbind_registry (select w) (store w j) ds (listeners w)") auto
  note keeps = unbind_registry_keeps [OF ur]
  show ?thesis
  proof (rule consistent_same [OF c])
    show "select w' = select w" by (simp add: w' put_editor_def)
    show "set (listeners w') \<subseteq> set (listeners w)" using keeps by (simp add: w')
    show "registered (store w' i) = registered (store w i)" for i
      using keeps by (simp add: w' put_editor_def)
    show "target_of (select w) (store w' i) nm = target_of (select w) (store w i) nm" for i nm
      using keeps by (simp add: w' put_editor_def)
  qed
qed

lemma unbind_own_registered:
  "unbind_own sel ed ls = Inr (ed', ls') \<Longrightarrow> registered ed' = []"
  by (auto simp add: unbind_own_def registered_def split: option.splits sum.splits)

lemma consistent_unbound:
  assumes c: "consistent w" and ok: "unbindAllNativeEvents w j = Inr w'"
  shows "consistent w'"
proof -
  from ok obtain self' ls' where
    own: "unbind_own (select w) (store w j) (listeners w) = Inr (self', ls')" and
    w': "w' = (put_editor w j self')\<lparr>listeners := unbind_body self' (unbind_frame self' ls')\<rparr>"
    by (auto simp add: unbindAllNativeEvents_def split: sum.splits)
  have sel: "select w' = select w" and other: "\<And>i. i \<noteq> j \<Longrightarrow> store w' i = store w i"
    and mine: "registered (store w' j) = []"
    using unbind_own_registered [OF own] by (simp_all add: w' put_editor_def)
  from c have recj: "own_listeners_recorded w j" by (simp add: consistent_def)
  show ?thesis
    unfolding consistent_def
  proof (intro allI conjI)
    fix i
    from c have reci: "own_listeners_recorded w i" and di: "distinct (map fst (registered (store w i)))"
      by (simp_all add: consistent_def)
    show "distinct (map fst (registered (store w' i)))"
      using di mine other by (cases "i = j") simp_all
    show "own_listeners_recorded w' i"
      unfolding own_listeners_recorded_def
    proof (intro ballI, clarify)
      fix m nm d
      assume mem: "(m, nm, d) \<in> set (listeners w')" and owns: "is_own i d"
      from unbindAll_listeners [OF recj ok mem] have
        old: "(m, nm, d) \<in> set (listeners w)" and notj: "\<not> is_own j d"
        by simp_all
      from owns notj have "i \<noteq> j" by auto
      with other have "store w' i = store w i" by simp
      with reci old owns sel
      show "(nm, d) \<in> set (registered (store w' i)) \<and> target_of (select w') (store w' i) nm = Some m"
        by (auto simp add: own_listeners_recorded_def)
    qed
  qed
qed

lemma unbind_property_subset: "set (unbind_property t nm p ls) \<subseteq> set ls"
  by (cases p) (simp_all add: unbind_property_def dom_unbind_subset)

lemma map_of_distinct_mem:
  "distinct (map fst kvs) \<Longrightarrow> (k, v) \<in> set kvs \<Longrightarrow> map_of kvs k = Some v"
  by simp

lemma toggle_off_outcome:
  assumes ok: "toggleNativeEvent w j n False = Inr w'" and ne: "n \<noteq> ''focus''" "n \<noteq> ''blur''"
    and ini: "initialized (store w j)"
  obtains tgt self' ds where
    "getEventTarget (select w) (store w j) n = Inr (tgt, self')" "delegates self' = Some ds"
    "w' = (put_editor w j (self'\<lparr>delegates := Some (filter (\<lambda>kv. fst kv \<noteq> n) ds)\<rparr>))
            \<lparr>listeners := unbind_property tgt n (get_property ds n) (listeners w)\<rparr>"
  using ok ne ini
  by (auto simp add: toggleNativeEvent_def Let_def split: if_splits sum.splits option.splits)

lemma consistent_toggle_off:
  assumes c: "consistent w" and ok: "toggleNativeEvent w j n False = Inr w'"
    and ne: "n \<noteq> ''focus''" "n \<noteq> ''blur''" and ini: "initialized (store w j)"
  shows "consistent w'"
  using ok ne ini
proof (cases rule: toggle_off_outcome)
  case (1 tgt self' ds)
  note get = 1(1) and w' = 1(3)
  have regs: "registered (store w j) = ds"
    using registered_after_get [OF get] 1(2) by (simp add: registered_def)
  have sel: "select w' = select w" and other: "\<And>i. i \<noteq> j \<Longrightarrow> store w' i = store w i"
    and mine: "registered (store w' j) = filter (\<lambda>kv. fst kv \<noteq> n) ds"
    and tgts: "\<And>nm. target_of (select w) (store w' j) nm = target_of (select w) (store w j) nm"
    and sub: "set (listeners w') \<subseteq> set (listeners w)"
    using target_of_after [OF get] unbind_property_subset by (simp_all add: w' put_editor_def)
  from c have recj: "own_listeners_recorded w j" and dj: "distinct (map fst (registered (store w j)))"
    by (simp_all add: consistent_def)
  show ?thesis
    unfolding consistent_def
  proof (intro allI conjI)
    fix i
    from c have reci: "own_listeners_recorded w i" and di: "distinct (map fst (registered (store w i)))"
      by (simp_all add: consistent_def)
    show "distinct (map fst (registered (store w' i)))"
      using di other mine regs by (cases "i = j") (simp_all add: distinct_map_filter)
    show "own_listeners_recorded w' i"
      unfolding own_listeners_recorded_def
    proof (intro ballI, clarify)
      fix m nm d
      assume mem: "(m, nm, d) \<in> set (listeners w')" and owns: "is_own i d"
      from mem sub have old: "(m, nm, d) \<in> set (listeners w)" by auto
      from reci old owns have
        rec: "(nm, d) \<in> set (registered (store w i))" "target_of (select w) (store w i) nm = Some m"
        by (auto simp add: own_listeners_recorded_def)
      show "(nm, d) \<in> set (registered (store w' i)) \<and> target_of (select w') (store w' i) nm = Some m"
      proof (cases "i = j")
        case False
        with other rec sel show ?thesis by simp
      next
        case True
        have "nm \<noteq> n"
        proof
          assume "nm = n"
          with rec True regs dj have found: "map_of ds n = Some d" and "(n, d) \<in> set ds"
            by (simp_all add: map_of_distinct_mem)
          from rec(2) True \<open>nm = n\<close> target_of_get [OF get] have "tgt = Some m" by simp
          with found mem \<open>nm = n\<close> show False
            by (simp add: w' unbind_property_def get_property_def dom_unbind_def)
        qed
        with rec True regs mine tgts sel show ?thesis by simp
      qed
    qed
  qed
qed

lemma consistent_toggled:
  assumes c: "consistent w" and ok: "toggleNativeEvent w j n st = Inr w'"
  shows "consistent w'"
proof (cases "n = ''focus'' \<or> n = ''blur''")
  case True
  with ok have "w' = w" by (auto simp add: toggleNativeEvent_def)
  with c show ?thesis by simp
next
  case False
  show ?thesis
  proof (cases st)
    case True
    show ?thesis
    proof (cases "initialized (store w j)")
      case True
      with ok False \<open>st\<close> have "bindEventDelegate w j n = Inr w'"
        by (simp add: toggleNativeEvent_def)
      with c show ?thesis by (rule consistent_bind)
    next
      case notini: False
      with ok False \<open>st\<close> obtain names where "w' = put_editor w j ((store w j)\<lparr>pendingNativeEvents := Some names\<rparr>)"
        by (auto simp add: toggleNativeEvent_def Let_def split: option.splits)
      then show ?thesis using c by (auto intro: consistent_same simp add: put_editor_def)
    qed
  next
    case off: False
    show ?thesis
    proof (cases "initialized (store w j)")
      case True
      with c ok False off show ?thesis by (auto intro: consistent_toggle_off)
    next
      case notini: False
      with ok False off have "w' = w" by (simp add: toggleNativeEvent_def)
      with c show ?thesis by simp
    qed
  qed
qed

lemma reachable_consistent: "reachable w \<Longrightarrow> consistent w"
proof (induction rule: reachable.induct)
  case (start w)
  then show ?case by (rule consistent_start)
next
  case (flags w i h r rm ini)
  then show ?case by (simp add: consistent_flags)
next
  case (manager w es a)
  then show ?case by (simp add: consistent_manager)
next
  case (bound w i n w')
  then show ?case by (blast intro: consistent_bind)
next
  case (pending w i w')
  then show ?case by (blast intro: consistent_pending)
next
  case (toggled w i n st w')
  then show ?case by (blast intro: consistent_toggled)
next
  case (unbound w i w')
  then show ?case by (blast intro: consistent_unbound)
next
  case (torn_down w i w')
  then show ?case by (blast intro: consistent_torn_down)
qed

text \<open>
  Claim C5, in the form that holds of the code. In every reachable state, once
  \<open>unbindAllNativeEvents\<close> has completed on an editor, none of the editor's private
  delegates is installed any more, and a later native event reaches the editor only through
  a shared listener of a custom event root, and only while the editor is among the live
  editors and its body is the target or an ancestor of it. Nothing reaches an editor that
  has left the list of live editors, and nothing reaches the editor when no shared listener
  was installed.
\<close>

theorem unbindAll_private_dispatch:
  assumes reach: "reachable w" and ok: "unbindAllNativeEvents w i = Inr w'"
  shows "(\<forall>(m, nm, d) \<in> set (listeners w'). \<not> is_own i d)
       \<and> (\<forall>x \<in> set (fireNative w' n eventName e). effect_editor x = i \<longrightarrow>
            i \<in> set (editors w') \<and> bodyMatches w' e i
            \<and> (\<exists>d. (n, eventName, d) \<in> set (listeners w') \<and> is_shared d))
       \<and> (i \<notin> set (editors w') \<longrightarrow> (\<forall>x \<in> set (fireNative w' n eventName e). effect_editor x \<noteq> i))
       \<and> ((\<forall>(m, nm, d) \<in> set (listeners w). \<not> is_shared d) \<longrightarrow>
            (\<forall>x \<in> set (fireNative w' n eventName e). effect_editor x \<noteq> i))"
proof -
  from reachable_consistent [OF reach] have rec: "own_listeners_recorded w i"
    by (simp add: consistent_def)
  have gone: "\<forall>(m, nm, d) \<in> set (listeners w'). (m, nm, d) \<in> set (listeners w) \<and> \<not> is_own i d"
    using unbindAll_listeners [OF rec ok] by blast
  have reach_i: "i \<in> set (editors w') \<and> bodyMatches w' e i
            \<and> (\<exists>d. (n, eventName, d) \<in> set (listeners w') \<and> is_shared d)"
    if x: "x \<in> set (fireNative w' n eventName e)" and xi: "effect_editor x = i" for x
  proof -
    from fireNative_source [OF x] obtain d where
      d: "(n, eventName, d) \<in> set (listeners w')" and run: "x \<in> set (run_delegate w' d e)"
      by blast
    from gone d have notown: "\<not> is_own i d" by blast
    show ?thesis
    proof (cases d)
      case (EditorDelegate j nm)
      with run_delegate_editor [OF run] xi notown show ?thesis by simp
    next
      case (CustomRootDelegate j nm)
      with run_delegate_editor [OF run] xi d show ?thesis by auto
    qed
  qed
  from gone reach_i show ?thesis by blast
qed

theorem unbindAll_private_dispatch_witness:
  "reachable plain_bound
   \<and> fireNative plain_bound 3 ''keydown'' key_event = [Fire 0 ''keydown'' key_event]
   \<and> unbindAllNativeEvents plain_bound 0 =
       Inr (plain_bound\<lparr>store := (store plain_bound)(0 := iframe_editor), listeners := []\<rparr>)
   \<and> fireNative (plain_bound\<lparr>store := (store plain_bound)(0 := iframe_editor), listeners := []\<rparr>)
       3 ''keydown'' key_event = []"
proof -
  have "initial plain_world"
    by (simp add: initial_def plain_world_def iframe_editor_def)
  then have begun: "reachable plain_world" by (rule reachable.start)
  have "bindEventDelegate plain_world 0 ''keydown'' = Inr plain_bound"
    by (simp add: bindEventDelegate_def plain_world_def plain_bound_def iframe_editor_def put_editor_def
        ensure_delegates_def registered_def truthy_at_def get_property_def object_prototype_names_def getEventTarget_def mouse_touch_test_def
        starts_with_def getEventRoot_def dom_bind_def Let_def)
  with begun have reach: "reachable plain_bound" by (rule reachable.bound)
  have before: "fireNative plain_bound 3 ''keydown'' key_event = [Fire 0 ''keydown'' key_event]"
    by (simp add: fireNative_def plain_bound_def plain_world_def iframe_editor_def fireEvent_def
        isListening_def isReadOnly_def)
  have ok: "unbindAllNativeEvents plain_bound 0 =
      Inr (plain_bound\<lparr>store := (store plain_bound)(0 := iframe_editor), listeners := []\<rparr>)"
    by (simp add: unbindAllNativeEvents_def unbind_own_def unbind_body_def unbind_frame_def dom_unbind_def
        plain_bound_def plain_world_def iframe_editor_def put_editor_def getEventTarget_def
        mouse_touch_test_def starts_with_def getEventRoot_def)
  from unbindAll_private_dispatch [OF reach ok, of 3 "''keydown''" key_event] reach before ok
  show ?thesis by (simp add: fireNative_def)
qed

text \<open>
  Claim C5 as worded fails for an editor under a custom event root. The shared listener is
  kept in the process-wide registry, not in the editor's delegates table, and sits on the
  root element, so \<open>unbindAllNativeEvents\<close> leaves it installed: on the page with two inline
  editors under root 5, a \<^verbatim>\<open>keydown\<close> inside the body of editor 0 is fired on editor 0 after
  binding, and still after binding followed by \<open>unbindAllNativeEvents\<close>.
\<close>

theorem shared_root_counterexample:
  "fire_after (bindEventDelegate rooted_world 0 ''keydown'') 5 ''keydown'' key_event =
     Inr [Fire 0 ''keydown'' key_event]
   \<and> fire_after (bind_then_unbindAll rooted_world 0 ''keydown'') 5 ''keydown'' key_event =
     Inr [Fire 0 ''keydown'' key_event]"
  by (simp add: fire_after_def bind_then_unbindAll_def bindEventDelegate_def rooted_world_def rooted_editor_def
      iframe_editor_def put_editor_def ensure_delegates_def registered_def truthy_at_def get_property_def object_prototype_names_def getEventTarget_def
      mouse_touch_test_def starts_with_def getEventRoot_def dom_bind_def Let_def ensure_registry_def
      registry_def unbindAllNativeEvents_def unbind_own_def unbind_body_def unbind_frame_def
      dom_unbind_def fireNative_def key_event_def bodyMatches_def isChildOf_def fireEvent_def
      isListening_def isReadOnly_def)

section \<open>Properties of the image picker\<close>

text \<open>
  Claim C6. A completed image insertion (the conversion to base64 fulfilled) adds exactly
  one call to the trace, a single undo transaction; outside of it nothing is called; inside
  of it there is exactly one creation of a blob-cache entry, with the identifier that
  \<^verbatim>\<open>Id.generate('mceu')\<close> has just produced from the counter (which the call advances), exactly
  one add of that entry to the cache, exactly one insertion of an \<^verbatim>\<open>img\<close> element whose
  \<^verbatim>\<open>src\<close> is the entry's blob URI, in this order, and no nested transaction.
\<close>

theorem addImage_completed:
  "(let s' = addImage srv s b (Some base64);
        ident = generate srv ''mceu'' (unique s);
        info = cache_create srv ident b base64;
        added = new_calls s s'
    in trace s' = trace s @ added
     \<and> added = [Transact [CacheCreate ident b base64, CacheAdd info,
                            InsertContent (Html ''img'' [(''src'', info_uri info)])]]
     \<and> length (filter is_transact added) = 1
     \<and> calls_outside added = []
     \<and> filter is_create (calls_inside added) = [CacheCreate ident b base64]
     \<and> filter is_add (calls_inside added) = [CacheAdd info]
     \<and> filter is_insert (calls_inside added) = [InsertContent (Html ''img'' [(''src'', info_uri info)])]
     \<and> filter is_transact (calls_inside added) = []
     \<and> unique s' = Suc (unique s))"
  by (simp add: addImage_def transact_def addImage_body_def record_call_def new_calls_def
      calls_inside_def calls_outside_def Let_def)

theorem addImage_completed_witness:
  "new_calls fresh_picker (addImage demo_services fresh_picker 7 (Some ''QUJD'')) =
     [Transact [CacheCreate ''mceu'' 7 ''QUJD'',
                CacheAdd \<lparr>info_id = ''mceu'', info_blob = 7, info_base64 = ''QUJD'', info_uri = ''blob:mceu''\<rparr>,
                InsertContent (Html ''img'' [(''src'', ''blob:mceu'')])]]
   \<and> unique (addImage demo_services fresh_picker 7 (Some ''QUJD'')) = 1"
  using addImage_completed [of demo_services fresh_picker 7 "''QUJD''"]
  by (simp add: Let_def demo_services_def fresh_picker_def cache_create_def)

text \<open>
  Two insertions in a row draw their identifiers from successive values of the counter, and
  an insertion whose conversion never completes calls nothing.
\<close>

lemma addImage_next_id:
  "unique (addImage srv s b (Some base64)) = Suc (unique s)
   \<and> addImage srv s b None = s"
  by (simp add: addImage_def transact_def addImage_body_def record_call_def Let_def)

text \<open>
  Claim C7. For a change event whose target carries a file list and which has no drag
  payload, \<open>extractBlob\<close> returns the first file of the list when the list is not empty and
  none when it is empty. When the target carries no file list, the first entry is read from
  the file list of the drag payload in the same way.
\<close>

theorem extractBlob_first_file:
  "(target_files (event_raw se) = Some files \<and> dataTransfer (event_raw se) = None \<longrightarrow>
      extractBlob se = Inr (case files of [] \<Rightarrow> None | f # _ \<Rightarrow> Some f))
   \<and> (target_files (event_raw se) = None \<and> dataTransfer (event_raw se) = Some (Some files) \<longrightarrow>
      extractBlob se = Inr (case files of [] \<Rightarrow> None | f # _ \<Rightarrow> Some f))"
  by (cases files) (simp_all add: extractBlob_def)

theorem extractBlob_first_file_witness:
  "extractBlob (file_event (Some [7, 8]) None) = Inr (Some 7)
   \<and> extractBlob (file_event (Some []) None) = Inr None
   \<and> extractBlob (file_event None (Some (Some [9]))) = Inr (Some 9)"
  using extractBlob_first_file [of "file_event (Some [7, 8]) None" "[7, 8]"]
    extractBlob_first_file [of "file_event (Some []) None" "[]"]
    extractBlob_first_file [of "file_event None (Some (Some [9]))" "[9]"]
  by (simp add: file_event_def)

text \<open>
  Claim C10. \<open>extractBlob\<close> is partial. Whenever the raw target carries a file list, even an
  empty one, the result is the first entry of that list whatever the drag payload is, so
  the payload is never consulted; and for an event whose target has no file list and which
  has no \<^verbatim>\<open>dataTransfer\<close> object the call does not return none but fails with a
  \<^verbatim>\<open>TypeError\<close>.
\<close>

theorem extractBlob_partial:
  "(target_files (event_raw se) = Some files \<longrightarrow>
      (\<forall>dt. extractBlob (se\<lparr>event_raw := (event_raw se)\<lparr>dataTransfer := dt\<rparr>\<rparr>) = Inr (first files)))
   \<and> (target_files (event_raw se) = None \<and> dataTransfer (event_raw se) = None \<longrightarrow>
      extractBlob se = Inl TypeError \<and> extractBlob se \<noteq> Inr None)"
  by (simp add: extractBlob_def)

theorem extractBlob_partial_witness:
  "extractBlob (file_event (Some []) (Some (Some [9]))) = Inr None
   \<and> extractBlob (file_event None None) = Inl TypeError"
  using extractBlob_partial [of "file_event (Some []) None" "[]"]
    extractBlob_partial [of "file_event None None"]
  by (simp add: file_event_def)

end
